theory Spec2Isabelle
  imports Main
begin

section \<open>The vboxmanage package of naksu: command execution and response cache\<close>

text \<open>
  The package \<open>vboxmanage\<close> (second half of \<open>naksu/host/host.go\<close>, and its older copy with
  \<open>CallRunVBoxManage\<close> and \<open>GetBoxProperty\<close>) runs the VBoxManage command-line tool, retries
  a command once after repairing a duplicate hard disk registration, and caches what it
  parsed from the tool's output.

  Go strings are byte sequences: \<open>string\<close>. A Go \<open>error\<close> is a value of the datatype
  \<open>error\<close>; a nil error is \<open>None\<close>. Every function that touches the package's global state
  takes the state and returns the new one.
\<close>

subsection \<open>Errors, events and the package state\<close>

datatype error =
    ExternalError string  \<comment> \<open>an error value handed in from outside these functions\<close>
  | errorString string    \<comment> \<open>\<open>errors.New\<close>, and \<open>fmt.Errorf\<close> without \<open>%w\<close>\<close>

fun Error_msg :: "error \<Rightarrow> string" where
  "Error_msg (ExternalError m) = m"
| "Error_msg (errorString m) = m"

text \<open>
  What the package does to the outside world, in the order it does it: it starts the
  process runner, calls the duplicate hard disk remediation, writes to the debug log and
  sleeps.
\<close>

datatype event =
    Exec "string list" bool  \<comment> \<open>\<open>mebroutines.RunAndGetOutput(runArgs, logOutput)\<close>\<close>
  | ExecOld "string list"    \<comment> \<open>\<open>mebroutines.RunVBoxManage(args)\<close> of the older copy\<close>
  | DetectAndFix string      \<comment> \<open>\<open>detectAndFixDuplicateHardDiskProblem(output)\<close>\<close>
  | Debug string             \<comment> \<open>\<open>log.Debug(text)\<close>\<close>
  | Sleep nat                \<comment> \<open>\<open>time.Sleep\<close>, in milliseconds\<close>

text \<open>
  The package-level variables \<open>vBoxResponseCache\<close> and \<open>vBoxManageStarted\<close>, the wall clock
  in milliseconds, and the events so far. A cache entry is a value with the time at which
  it expires.
\<close>

record state =
  vBoxResponseCache :: "string \<Rightarrow> (string \<times> nat) option"
  vBoxManageStarted :: int
  clock :: nat
  trace :: "event list"

text \<open>
  The collaborators whose code is not among the sources. Each one answers from the events
  so far and its arguments, and says how many milliseconds it took. They act on the outside
  world only: none of them reads or writes the cache or the flag \<open>vBoxManageStarted\<close>.
  What the remediation itself runs is part of its event and is not listed as an invocation.
  \<^item> \<open>RunAndGetOutput_ext\<close>: the process runner, returning the combined output and the error;
  \<^item> \<open>RunVBoxManage_ext\<close>: \<open>mebroutines.RunVBoxManage\<close>, which the older copy calls;
  \<^item> \<open>detectAndFix_ext\<close>: \<open>detectAndFixDuplicateHardDiskProblem\<close>, returning \<open>(fixed, error)\<close>;
  \<^item> \<open>getVBoxManagePath\<close>: the path of the VBoxManage executable;
  \<^item> \<open>VBoxManageCacheTimeout\<close>, \<open>VBoxRunningCacheTimeout\<close>: the two constants of package
    \<open>constants\<close>, in milliseconds;
  \<^item> \<open>regexp_MustCompile\<close>: Go's \<open>regexp\<close> package for a caller-supplied pattern: \<open>None\<close> when
    the pattern does not compile (\<open>MustCompile\<close> panics), otherwise the function giving, for
    a subject, \<open>None\<close> when nothing matches and else the index pairs of the match and of each
    group (\<open>None\<close> for a group that took no part), as \<open>FindStringSubmatchIndex\<close> does.
\<close>

record env =
  RunAndGetOutput_ext :: "event list \<Rightarrow> string list \<Rightarrow> bool \<Rightarrow> (string \<times> error option) \<times> nat"
  RunVBoxManage_ext :: "event list \<Rightarrow> string list \<Rightarrow> (string \<times> error option) \<times> nat"
  detectAndFix_ext :: "event list \<Rightarrow> string \<Rightarrow> (bool \<times> error option) \<times> nat"
  getVBoxManagePath :: string
  VBoxManageCacheTimeout :: nat
  VBoxRunningCacheTimeout :: nat
  regexp_MustCompile :: "string \<Rightarrow> (string \<Rightarrow> (nat \<times> nat) option list option) option"

definition emit :: "event \<Rightarrow> state \<Rightarrow> state" where
  "emit e s = s\<lparr>trace := trace s @ [e]\<rparr>"

definition elapse :: "nat \<Rightarrow> state \<Rightarrow> state" where
  "elapse d s = s\<lparr>clock := clock s + d\<rparr>"

definition log_Debug :: "string \<Rightarrow> state \<Rightarrow> state" where
  "log_Debug text s = emit (Debug text) s"

text \<open>\<open>time.Sleep\<close> takes the time asked for; logging takes none.\<close>

definition time_Sleep :: "nat \<Rightarrow> state \<Rightarrow> state" where
  "time_Sleep ms s = elapse ms (emit (Sleep ms) s)"

definition mebroutines_RunAndGetOutput ::
  "env \<Rightarrow> string list \<Rightarrow> bool \<Rightarrow> state \<Rightarrow> (string \<times> error option) \<times> state" where
  "mebroutines_RunAndGetOutput env commandArgs logOutput s =
     (case RunAndGetOutput_ext env (trace s) commandArgs logOutput of
        (res, d) \<Rightarrow> (res, elapse d (emit (Exec commandArgs logOutput) s)))"

definition mebroutines_RunVBoxManage ::
  "env \<Rightarrow> string list \<Rightarrow> state \<Rightarrow> (string \<times> error option) \<times> state" where
  "mebroutines_RunVBoxManage env args s =
     (case RunVBoxManage_ext env (trace s) args of
        (res, d) \<Rightarrow> (res, elapse d (emit (ExecOld args) s)))"

definition detectAndFixDuplicateHardDiskProblem ::
  "env \<Rightarrow> string \<Rightarrow> state \<Rightarrow> (bool \<times> error option) \<times> state" where
  "detectAndFixDuplicateHardDiskProblem env output s =
     (case detectAndFix_ext env (trace s) output of
        (res, d) \<Rightarrow> (res, elapse d (emit (DetectAndFix output) s)))"

subsection \<open>Formatting helpers\<close>

fun strings_Join :: "string list \<Rightarrow> string \<Rightarrow> string" where
  "strings_Join [] sep = []"
| "strings_Join [x] sep = x"
| "strings_Join (x # y # ys) sep = x @ sep @ strings_Join (y # ys) sep"

definition quoted :: "string \<Rightarrow> string" where
  "quoted x = CHR 0x27 # x @ [CHR 0x27]"

definition digit_char :: "nat \<Rightarrow> char" where
  "digit_char d = char_of (48 + d)"

fun decimal :: "nat \<Rightarrow> string" where
  "decimal n = (if n < 10 then [digit_char n] else decimal (n div 10) @ [digit_char (n mod 10)])"

declare decimal.simps [simp del]

subsection \<open>Running VBoxManage\<close>

text \<open>The closure \<open>logError\<close> of \<open>runVBoxManage\<close>.\<close>

definition logError :: "string \<Rightarrow> string \<Rightarrow> error \<Rightarrow> state \<Rightarrow> state" where
  "logError command output err s =
     log_Debug output
       (log_Debug (''Failed to execute '' @ command @ '' ('' @ Error_msg err @ ''), complete output:'') s)"

definition runVBoxManage ::
  "env \<Rightarrow> string list \<Rightarrow> bool \<Rightarrow> state \<Rightarrow> (string \<times> error option) \<times> state" where
  "runVBoxManage env args logOutput s =
     (let runArgs = getVBoxManagePath env # args in
      case mebroutines_RunAndGetOutput env runArgs logOutput s of
        ((vBoxManageOutput, err), s1) \<Rightarrow>
          (case err of
             None \<Rightarrow> ((vBoxManageOutput, None), s1)
           | Some e \<Rightarrow>
               (let command = strings_Join runArgs '' '';
                    s2 = logError command vBoxManageOutput e s1
                in case detectAndFixDuplicateHardDiskProblem env vBoxManageOutput s2 of
                     ((fixed, fixErr), s3) \<Rightarrow>
                       (case (fixed, fixErr) of
                          (False, Some fe) \<Rightarrow>
                            (([], Some (errorString
                                 (''failed to execute '' @ command @ '': '' @ Error_msg e))),
                             log_Debug (''Failed to fix duplicate hard disk problem with command ''
                                          @ command @ '': ('' @ Error_msg fe @ '')'') s3)
                        | _ \<Rightarrow>
                            (if fixed then
                               (case mebroutines_RunAndGetOutput env runArgs logOutput
                                       (log_Debug (''Retrying '' @ quoted command
                                                     @ '' after fixing problem'') s3) of
                                  ((output2, err2), s5) \<Rightarrow>
                                    (case err2 of
                                       None \<Rightarrow> ((output2, None), s5)
                                     | Some e2 \<Rightarrow>
                                         ((output2, Some e2), logError command output2 e2 s5)))
                             else ((vBoxManageOutput, Some e), s3))))))"

text \<open>
  The polling loop at the head of \<open>runCommand\<close> and of \<open>CallRunVBoxManage\<close>; \<open>caller\<close> is the
  name the log line starts with. Nothing in a single thread of control clears the flag
  while the loop runs.
\<close>

function wait_for_VBoxManage :: "string \<Rightarrow> nat \<Rightarrow> state \<Rightarrow> state" where
  "wait_for_VBoxManage caller tryCounter s =
     (if vBoxManageStarted s \<noteq> 0 \<and> tryCounter < 240 then
        wait_for_VBoxManage caller (tryCounter + 1)
          (log_Debug (caller @ '' is waiting VBoxManage to exit (race condition lock count ''
                        @ decimal (tryCounter + 1) @ '')'')
             (time_Sleep 500 s))
      else s)"
  by pat_completeness auto
termination
  by (relation "measure (\<lambda>(caller, tryCounter, s). 240 - tryCounter)") auto

declare wait_for_VBoxManage.simps [simp del]

definition time_Now_Unix :: "state \<Rightarrow> int" where
  "time_Now_Unix s = int (clock s div 1000)"

definition runCommand ::
  "env \<Rightarrow> string list \<Rightarrow> bool \<Rightarrow> state \<Rightarrow> (string \<times> error option) \<times> state" where
  "runCommand env args logOutput s =
     (let s1 = wait_for_VBoxManage ''RunCommand'' 0 s;
          s2 = s1\<lparr>vBoxManageStarted := time_Now_Unix s1\<rparr>
      in case runVBoxManage env args logOutput s2 of
           ((vBoxManageOutput, err), s3) \<Rightarrow>
             ((vBoxManageOutput, err), s3\<lparr>vBoxManageStarted := 0\<rparr>))"

definition RunCommand :: "env \<Rightarrow> string list \<Rightarrow> state \<Rightarrow> (string \<times> error option) \<times> state" where
  "RunCommand env args s = runCommand env args True s"

definition RunCommandWithoutLogging ::
  "env \<Rightarrow> string list \<Rightarrow> state \<Rightarrow> (string \<times> error option) \<times> state" where
  "RunCommandWithoutLogging env args s = runCommand env args False s"

text \<open>The older copy: the same loop around \<open>mebroutines.RunVBoxManage\<close>.\<close>

definition CallRunVBoxManage ::
  "env \<Rightarrow> string list \<Rightarrow> state \<Rightarrow> (string \<times> error option) \<times> state" where
  "CallRunVBoxManage env args s =
     (let s1 = wait_for_VBoxManage ''CallRunVBoxManage'' 0 s;
          s2 = s1\<lparr>vBoxManageStarted := time_Now_Unix s1\<rparr>
      in case mebroutines_RunVBoxManage env args s2 of
           ((vBoxManageOutput, err), s3) \<Rightarrow>
             ((vBoxManageOutput, err), s3\<lparr>vBoxManageStarted := 0\<rparr>))"

subsection \<open>The response cache\<close>

text \<open>
  Modelled from the spec: the cache type of \<open>github.com/paulusrobin/go-memory-cache\<close> is not
  among the sources. \<open>Get\<close> misses (returns an error, here \<open>None\<close>) when the key was never
  set or its entry has expired; \<open>Set\<close> always replaces the entry, with the expiry counted
  from the time of the call, and returns no error. The cache is created by \<open>init()\<close> (by
  \<open>ensureVBoxResponseCacheInitialised\<close> in the older copy), so it is never nil.
\<close>

definition cache_Get :: "state \<Rightarrow> string \<Rightarrow> string option" where
  "cache_Get s key =
     (case vBoxResponseCache s key of
        None \<Rightarrow> None
      | Some (v, expiresAt) \<Rightarrow> if clock s < expiresAt then Some v else None)"

definition cache_Set :: "string \<Rightarrow> string \<Rightarrow> nat \<Rightarrow> state \<Rightarrow> error option \<times> state" where
  "cache_Set key v ttl s =
     (None, s\<lparr>vBoxResponseCache := (vBoxResponseCache s)(key \<mapsto> (v, clock s + ttl))\<rparr>)"

subsection \<open>The fixed patterns\<close>

text \<open>
  Go's \<open>FindStringSubmatch\<close> returns the leftmost match: the first position of the subject
  at which the pattern matches, and there the match that the greedy operators prefer.
  Each of the four fixed patterns of the package is written out as the function that
  matches it at the head of a string; \<open>find_leftmost\<close> tries the positions from left to
  right. The result is \<open>[]\<close> for Go's nil, otherwise the whole match followed by group 1.
  The classes are Go's: \<open>\d\<close> is \<open>[0-9]\<close>, \<open>\w\<close> is \<open>[0-9A-Za-z_]\<close>, \<open>\s\<close> is
  \<open>[\t\n\f\r ]\<close>, and \<open>.\<close> is any character but the newline.
\<close>

definition is_digit :: "char \<Rightarrow> bool" where
  "is_digit c = (c \<in> set ''0123456789'')"

definition is_word :: "char \<Rightarrow> bool" where
  "is_word c =
     (c \<in> set ''0123456789ABCDEFGHIJKLMNOPQRSTUVWXYZ_abcdefghijklmnopqrstuvwxyz'')"

definition is_space :: "char \<Rightarrow> bool" where
  "is_space c = (c \<in> set [CHR 0x09, CHR 0x0A, CHR 0x0C, CHR 0x0D, CHR 0x20])"

definition not_newline :: "char \<Rightarrow> bool" where
  "not_newline c = (c \<noteq> CHR 0x0A)"

fun find_leftmost :: "(string \<Rightarrow> string list) \<Rightarrow> string \<Rightarrow> string list" where
  "find_leftmost at [] = at []"
| "find_leftmost at (c # cs) =
     (if at (c # cs) = [] then find_leftmost at cs else at (c # cs))"

text \<open>\<open>Value:\s*(\w+)\<close>, the pattern of \<open>GetVMProperty\<close>.\<close>

definition propRegexp_at :: "string \<Rightarrow> string list" where
  "propRegexp_at x =
     (if take 6 x = ''Value:'' then
        (let spaces = takeWhile is_space (drop 6 x);
             word = takeWhile is_word (dropWhile is_space (drop 6 x))
         in if word = [] then [] else [''Value:'' @ spaces @ word, word])
      else [])"

text \<open>\<open>Value: (.+)\<close>, the pattern of \<open>GetBoxProperty\<close> in the older copy.\<close>

definition propRegexp_old_at :: "string \<Rightarrow> string list" where
  "propRegexp_old_at x =
     (if take 7 x = ''Value: '' then
        (let rest = takeWhile not_newline (drop 7 x)
         in if rest = [] then [] else [''Value: '' @ rest, rest])
      else [])"

text \<open>
  \<open>VMState="(.+)"\<close>: the greedy \<open>.+\<close> runs to the last double quote of the line, and needs
  one character at least before it.
\<close>

definition VMState_prefix :: string where
  "VMState_prefix = ''VMState='' @ [CHR 0x22]"

definition vmStateRegexp_at :: "string \<Rightarrow> string list" where
  "vmStateRegexp_at x =
     (if take 9 x = VMState_prefix then
        (case dropWhile (\<lambda>c. c \<noteq> CHR 0x22) (rev (takeWhile not_newline (drop 9 x))) of
           [] \<Rightarrow> []
         | q # before \<Rightarrow>
             if before = [] then []
             else [VMState_prefix @ rev before @ [CHR 0x22], rev before])
      else [])"

text \<open>\<open>^(\d+\.\d+\.\d+)\<close>: anchored at the start of the text, so no other position is tried.\<close>

definition versionRegexp_FindStringSubmatch :: "string \<Rightarrow> string list" where
  "versionRegexp_FindStringSubmatch x =
     (let major = takeWhile is_digit x in
      if major = [] then []
      else case dropWhile is_digit x of
             [] \<Rightarrow> []
           | d1 # x1 \<Rightarrow>
               if d1 \<noteq> CHR ''.'' then []
               else
                 (let minor = takeWhile is_digit x1 in
                  if minor = [] then []
                  else case dropWhile is_digit x1 of
                         [] \<Rightarrow> []
                       | d2 # x2 \<Rightarrow>
                           if d2 \<noteq> CHR ''.'' then []
                           else
                             (let patch = takeWhile is_digit x2 in
                              if patch = [] then []
                              else [major @ ''.'' @ minor @ ''.'' @ patch,
                                    major @ ''.'' @ minor @ ''.'' @ patch])))"

fun strings_Contains :: "string \<Rightarrow> string \<Rightarrow> bool" where
  "strings_Contains [] substr = (substr = [])"
| "strings_Contains (c # cs) substr =
     (take (length substr) (c # cs) = substr \<or> strings_Contains cs substr)"

definition vBoxManageOutputNoVMInstalled :: string where
  "vBoxManageOutputNoVMInstalled = ''Could not find a registered machine named''"

subsection \<open>Semantic versions\<close>

text \<open>
  Modelled from the spec: \<open>semver.Make\<close> and \<open>Version.String\<close> of
  \<open>github.com/blang/semver/v4\<close> are not among the sources; the spec has the version
  "parsed strictly as a semantic version". A semantic version is
  \<open>major.minor.patch\<close>, then \<open>-\<close> and dot-separated pre-release identifiers, then \<open>+\<close> and
  dot-separated build identifiers, both optional. The three numbers are decimal, have no
  leading zero and fit an unsigned 64-bit integer; a numeric pre-release identifier
  likewise; the other identifiers are non-empty and made of \<open>[0-9A-Za-z-]\<close>.
\<close>

datatype PRVersion = PRNum nat | PRStr string

record Version =
  Major :: nat
  Minor :: nat
  Patch :: nat
  Pre :: "PRVersion list"
  Build :: "string list"

definition Version_zero :: Version where
  "Version_zero = \<lparr>Major = 0, Minor = 0, Patch = 0, Pre = [], Build = []\<rparr>"

definition is_alphanum :: "char \<Rightarrow> bool" where
  "is_alphanum c = (is_word c \<and> c \<noteq> CHR ''_'' \<or> c = CHR ''-'')"

definition digit_value :: "char \<Rightarrow> nat" where
  "digit_value c = of_char c - 48"

definition decimal_value :: "string \<Rightarrow> nat" where
  "decimal_value x = foldl (\<lambda>n c. 10 * n + digit_value c) 0 x"

definition hasLeadingZeroes :: "string \<Rightarrow> bool" where
  "hasLeadingZeroes x = (length x > 1 \<and> hd x = CHR ''0'')"

definition parse_number :: "string \<Rightarrow> string \<Rightarrow> error + nat" where
  "parse_number what x =
     (if \<not> list_all is_digit x then
        Inl (errorString (''Invalid character(s) found in '' @ what @ '' number '' @ x))
      else if hasLeadingZeroes x then
        Inl (errorString (what @ '' number must not contain leading zeroes '' @ x))
      else if x = [] then
        Inl (errorString (''parsing '' @ x @ '': invalid syntax''))
      else if decimal_value x \<ge> 2 ^ 64 then
        Inl (errorString (''parsing '' @ x @ '': value out of range''))
      else Inr (decimal_value x))"

definition NewPRVersion :: "string \<Rightarrow> error + PRVersion" where
  "NewPRVersion x =
     (if x = [] then Inl (errorString ''Prerelease is empty'')
      else if list_all is_digit x then
        (case parse_number ''Prerelease'' x of Inl e \<Rightarrow> Inl e | Inr n \<Rightarrow> Inr (PRNum n))
      else if list_all is_alphanum x then Inr (PRStr x)
      else Inl (errorString (''Invalid character(s) found in prerelease '' @ x)))"

definition check_build :: "string \<Rightarrow> error + string" where
  "check_build x =
     (if x = [] then Inl (errorString ''Build meta data is empty'')
      else if list_all is_alphanum x then Inr x
      else Inl (errorString (''Invalid character(s) found in build meta data '' @ x)))"

fun map_result :: "('a \<Rightarrow> error + 'b) \<Rightarrow> 'a list \<Rightarrow> error + 'b list" where
  "map_result f [] = Inr []"
| "map_result f (x # xs) =
     (case f x of
        Inl e \<Rightarrow> Inl e
      | Inr y \<Rightarrow> (case map_result f xs of Inl e \<Rightarrow> Inl e | Inr ys \<Rightarrow> Inr (y # ys)))"

fun strings_Split :: "string \<Rightarrow> char \<Rightarrow> string list" where
  "strings_Split [] sep = [[]]"
| "strings_Split (c # cs) sep =
     (if c = sep then [] # strings_Split cs sep
      else (case strings_Split cs sep of
              [] \<Rightarrow> [[c]]
            | p # ps \<Rightarrow> (c # p) # ps))"

definition cut :: "char \<Rightarrow> string \<Rightarrow> string \<times> string option" where
  "cut sep x =
     (case dropWhile (\<lambda>c. c \<noteq> sep) x of
        [] \<Rightarrow> (x, None)
      | _ # after \<Rightarrow> (takeWhile (\<lambda>c. c \<noteq> sep) x, Some after))"

definition semver_Make :: "string \<Rightarrow> Version \<times> error option" where
  "semver_Make x =
     (if x = [] then (Version_zero, Some (errorString ''Version string empty''))
      else case cut CHR ''.'' x of
        (_, None) \<Rightarrow> (Version_zero, Some (errorString ''No Major.Minor.Patch elements found''))
      | (majorStr, Some x1) \<Rightarrow>
         (case cut CHR ''.'' x1 of
            (_, None) \<Rightarrow>
              (Version_zero, Some (errorString ''No Major.Minor.Patch elements found''))
          | (minorStr, Some x2) \<Rightarrow>
             (case parse_number ''major'' majorStr of
                Inl e \<Rightarrow> (Version_zero, Some e)
              | Inr major \<Rightarrow>
                 (case parse_number ''minor'' minorStr of
                    Inl e \<Rightarrow> (Version_zero, Some e)
                  | Inr minor \<Rightarrow>
                     (case cut CHR ''+'' x2 of
                        (x3, build) \<Rightarrow>
                         (case cut CHR ''-'' x3 of
                            (patchStr, prerelease) \<Rightarrow>
                             (case parse_number ''patch'' patchStr of
                                Inl e \<Rightarrow> (Version_zero, Some e)
                              | Inr patch \<Rightarrow>
                                 (case map_result NewPRVersion
                                         (case prerelease of
                                            None \<Rightarrow> []
                                          | Some p \<Rightarrow> strings_Split p CHR ''.'') of
                                    Inl e \<Rightarrow> (Version_zero, Some e)
                                  | Inr pre \<Rightarrow>
                                     (case map_result check_build
                                             (case build of
                                                None \<Rightarrow> []
                                              | Some b \<Rightarrow> strings_Split b CHR ''.'') of
                                        Inl e \<Rightarrow> (Version_zero, Some e)
                                      | Inr bld \<Rightarrow>
                                          (\<lparr>Major = major, Minor = minor, Patch = patch,
                                            Pre = pre, Build = bld\<rparr>, None))))))))))"

fun PRVersion_String :: "PRVersion \<Rightarrow> string" where
  "PRVersion_String (PRNum n) = decimal n"
| "PRVersion_String (PRStr x) = x"

definition Version_String :: "Version \<Rightarrow> string" where
  "Version_String v =
     decimal (Major v) @ ''.'' @ decimal (Minor v) @ ''.'' @ decimal (Patch v)
     @ (if Pre v = [] then [] else ''-'' @ strings_Join (map PRVersion_String (Pre v)) ''.'')
     @ (if Build v = [] then [] else ''+'' @ strings_Join (Build v) ''.'')"

subsection \<open>The queries\<close>

definition getVMInfo :: "env \<Rightarrow> string \<Rightarrow> state \<Rightarrow> string \<times> state" where
  "getVMInfo env vmName s =
     (case cache_Get s ''showvminfo'' of
        None \<Rightarrow>
          (case RunCommandWithoutLogging env [''showvminfo'', ''--machinereadable'', vmName] s of
             ((output, err), s1) \<Rightarrow>
               (case (case err of
                        Some e \<Rightarrow> ([], log_Debug (''Could not get VM info: '' @ Error_msg e) s1)
                      | None \<Rightarrow> (output, s1)) of
                  (rawVMInfo, s2) \<Rightarrow>
                    (case cache_Set ''showvminfo'' rawVMInfo (VBoxManageCacheTimeout env) s2 of
                       (errCache, s3) \<Rightarrow>
                         (rawVMInfo,
                          case errCache of
                            Some ec \<Rightarrow>
                              log_Debug (''Could not store VM info to cache: '' @ Error_msg ec) s3
                          | None \<Rightarrow> s3))))
      | Some rawVMInfoInterface \<Rightarrow> (rawVMInfoInterface, s))"

text \<open>
  \<open>FindStringSubmatch\<close> for a compiled caller-supplied pattern: the slices of the subject
  at the index pairs, the empty string for a group that took no part, \<open>[]\<close> for nil.
\<close>

definition slices :: "string \<Rightarrow> (nat \<times> nat) option list option \<Rightarrow> string list" where
  "slices subject m =
     (case m of
        None \<Rightarrow> []
      | Some groups \<Rightarrow>
          map (\<lambda>g. case g of None \<Rightarrow> [] | Some (i, j) \<Rightarrow> take (j - i) (drop i subject)) groups)"

text \<open>\<open>GetVMInfoByRegexp\<close> returns \<open>None\<close> where \<open>regexp.MustCompile\<close> panics.\<close>

definition GetVMInfoByRegexp :: "env \<Rightarrow> string \<Rightarrow> string \<Rightarrow> state \<Rightarrow> string option \<times> state" where
  "GetVMInfoByRegexp env vmName vmRegexp s =
     (case getVMInfo env vmName s of
        (rawVMInfo, s1) \<Rightarrow>
          (case regexp_MustCompile env vmRegexp of
             None \<Rightarrow> (None, s1)
           | Some pattern \<Rightarrow>
               (let result = slices rawVMInfo (pattern rawVMInfo)
                in if length result > 1 then (Some (result ! 1), s1) else (Some [], s1))))"

definition getVBoxManageVersionSemanticPart :: "env \<Rightarrow> state \<Rightarrow> (string \<times> error option) \<times> state" where
  "getVBoxManageVersionSemanticPart env s =
     (case RunCommand env [''--version''] s of
        ((output, errVBM), s1) \<Rightarrow>
          (case errVBM of
             Some e \<Rightarrow>
               (([], Some (errorString (''failed to get vboxmanage version: '' @ Error_msg e))),
                log_Debug (''GetVBoxManageVersion() failed to get VBoxManage version: ''
                             @ Error_msg e) s1)
           | None \<Rightarrow>
               (let matches = versionRegexp_FindStringSubmatch output
                in if matches \<noteq> [] then ((matches ! 1, None), s1)
                   else (([], Some (errorString
                            (''could not find semantic version string from vboxmanage version ''
                               @ quoted output))), s1))))"

definition GetVBoxManageVersion :: "env \<Rightarrow> state \<Rightarrow> (Version \<times> error option) \<times> state" where
  "GetVBoxManageVersion env s =
     (case cache_Get s ''vboxmanageversion'' of
        None \<Rightarrow>
          (case getVBoxManageVersionSemanticPart env s of
             ((vBoxManageVersionString, errVersionString), s1) \<Rightarrow>
               (case errVersionString of
                  Some e \<Rightarrow>
                    ((Version_zero, Some e),
                     log_Debug (''GetVBoxManageVersion() could not get VBoxManage version: ''
                                  @ Error_msg e) s1)
                | None \<Rightarrow>
                    (case semver_Make vBoxManageVersionString of
                       (vBoxManageVersion, Some errSemVer) \<Rightarrow>
                         ((Version_zero,
                           Some (errorString (''vboxmanage version '' @ vBoxManageVersionString
                                   @ '' is not a semantic version number: ''
                                   @ Error_msg errSemVer))),
                          log_Debug (''GetVBoxManageVersion() got VBoxManage version code ''
                                       @ quoted vBoxManageVersionString
                                       @ '' but it is not semantic version number: ''
                                       @ Error_msg errSemVer) s1)
                     | (vBoxManageVersion, None) \<Rightarrow>
                         (case cache_Set ''vboxmanageversion'' (Version_String vBoxManageVersion)
                                 (VBoxManageCacheTimeout env) s1 of
                            (errCache, s2) \<Rightarrow>
                              ((vBoxManageVersion, None),
                               case errCache of
                                 Some ec \<Rightarrow>
                                   log_Debug (''GetVBoxManageVersion() could not store version to cache: ''
                                                @ Error_msg ec) s2
                               | None \<Rightarrow> s2)))))
      | Some cachedVBoxManageVersion \<Rightarrow>
          (case semver_Make cachedVBoxManageVersion of
             (v, Some err) \<Rightarrow>
               ((Version_zero,
                 Some (errorString (''getting semantic version object from ''
                         @ quoted cachedVBoxManageVersion @ '' caused error: '' @ Error_msg err))),
                s)
           | (cachedVBoxManageVersionSemVer, None) \<Rightarrow> ((cachedVBoxManageVersionSemVer, None), s)))"

definition GetVMProperty :: "env \<Rightarrow> string \<Rightarrow> string \<Rightarrow> state \<Rightarrow> string \<times> state" where
  "GetVMProperty env vmName property s =
     (case cache_Get s property of
        None \<Rightarrow>
          (case RunCommand env [''guestproperty'', ''get'', vmName, property] s of
             ((output0, errVBoxManage), s1) \<Rightarrow>
               (case (case errVBoxManage of
                        Some e \<Rightarrow>
                          ([], log_Debug (''Could not get VM guest property '' @ quoted property
                                            @ '': '' @ Error_msg e) s1)
                      | None \<Rightarrow> (output0, s1)) of
                  (output, s2) \<Rightarrow>
                    (let propMatches = find_leftmost propRegexp_at output;
                         propertyValue = (if propMatches \<noteq> [] then propMatches ! 1 else [])
                     in case cache_Set property propertyValue (VBoxManageCacheTimeout env) s2 of
                          (errCacheSet, s3) \<Rightarrow>
                            (propertyValue,
                             case errCacheSet of
                               None \<Rightarrow>
                                 log_Debug (''Stored VM guest property '' @ quoted property
                                              @ '' value '' @ quoted propertyValue
                                              @ '' to cache'') s3
                             | Some ec \<Rightarrow>
                                 log_Debug (''Could not store VM guest property ''
                                              @ quoted property @ '', value ''
                                              @ quoted propertyValue @ '' to cache: ''
                                              @ Error_msg ec) s3))))
      | Some propertyValueInterface \<Rightarrow>
          (propertyValueInterface,
           log_Debug (''Got VM guest property '' @ property @ '' from cache: ''
                        @ propertyValueInterface) s))"

text \<open>The older copy of the same query.\<close>

definition GetBoxProperty :: "env \<Rightarrow> string \<Rightarrow> string \<Rightarrow> state \<Rightarrow> string \<times> state" where
  "GetBoxProperty env boxName property s =
     (case cache_Get s property of
        None \<Rightarrow>
          (case CallRunVBoxManage env [''guestproperty'', ''get'', boxName, property] s of
             ((output0, errVBoxManage), s1) \<Rightarrow>
               (case (case errVBoxManage of
                        Some e \<Rightarrow>
                          ([], log_Debug (''Could not get VM guest property: '' @ Error_msg e) s1)
                      | None \<Rightarrow> (output0, s1)) of
                  (output, s2) \<Rightarrow>
                    (let propMatches = find_leftmost propRegexp_old_at output;
                         propertyValue = (if length propMatches = 2 then propMatches ! 1 else [])
                     in case cache_Set property propertyValue (VBoxManageCacheTimeout env) s2 of
                          (errCacheSet, s3) \<Rightarrow>
                            (propertyValue,
                             case errCacheSet of
                               None \<Rightarrow>
                                 log_Debug (''Stored VM guest property '' @ property
                                              @ '' to cache: '' @ propertyValue) s3
                             | Some ec \<Rightarrow>
                                 log_Debug (''Could not store VM guest property '' @ property
                                              @ '', value '' @ propertyValue @ '' to cache: ''
                                              @ Error_msg ec) s3))))
      | Some propertyValueInterface \<Rightarrow>
          (propertyValueInterface,
           log_Debug (''Got VM guest property '' @ property @ '' from cache: ''
                        @ propertyValueInterface) s))"

definition getVMStateFromOutput :: "string \<Rightarrow> string" where
  "getVMStateFromOutput output =
     (let result = find_leftmost vmStateRegexp_at output
      in if length result > 1 then result ! 1 else [])"

definition getVMState :: "env \<Rightarrow> string \<Rightarrow> state \<Rightarrow> (string \<times> error option) \<times> state" where
  "getVMState env vmName s =
     (case cache_Get s ''vmstate'' of
        None \<Rightarrow>
          (case RunCommandWithoutLogging env [''showvminfo'', ''--machinereadable'', vmName] s of
             ((rawVMInfo, err), s1) \<Rightarrow>
               if strings_Contains rawVMInfo vBoxManageOutputNoVMInstalled then
                 (([], None), log_Debug ''When trying to get VM state, VM is not installed'' s1)
               else
                 (case err of
                    Some e \<Rightarrow>
                      (([], Some e),
                       log_Debug (''When trying to get VM state, could not get VM info: ''
                                    @ Error_msg e) s1)
                  | None \<Rightarrow>
                      (let vmState = getVMStateFromOutput rawVMInfo
                       in if vmState = [] then
                            (([], Some (errorString ''could not find vm state from the vm info'')),
                             log_Debug ''Could not find VM state from the VM info'' s1)
                          else
                            (case cache_Set ''vmstate'' vmState (VBoxRunningCacheTimeout env) s1 of
                               (errCache, s2) \<Rightarrow>
                                 ((vmState, None),
                                  case errCache of
                                    Some ec \<Rightarrow>
                                      log_Debug (''Could not store VM state to cache: ''
                                                   @ Error_msg ec) s2
                                  | None \<Rightarrow> s2)))))
      | Some vmState \<Rightarrow> ((vmState, None), s))"

definition IsVMRunning :: "env \<Rightarrow> string \<Rightarrow> state \<Rightarrow> (bool \<times> error option) \<times> state" where
  "IsVMRunning env vmName s =
     (case getVMState env vmName s of
        ((vmState, err), s1) \<Rightarrow>
          (let s2 = (if vmState \<noteq> ''<nil>'' then
                       log_Debug (''vboxmanage.IsVMRunning() got following state string: ''
                                    @ quoted vmState) s1
                     else s1)
           in case err of
                Some e \<Rightarrow> ((False, Some e), s2)
              | None \<Rightarrow> ((vmState = ''running'', None), s2)))"

definition IsVMInstalled :: "env \<Rightarrow> string \<Rightarrow> state \<Rightarrow> (bool \<times> error option) \<times> state" where
  "IsVMInstalled env vmName s =
     (case RunCommandWithoutLogging env [''showvminfo'', ''--machinereadable'', vmName] s of
        ((rawVMInfo, err), s1) \<Rightarrow>
          (case err of
             Some e \<Rightarrow>
               if strings_Contains rawVMInfo vBoxManageOutputNoVMInstalled then
                 ((False, None), log_Debug ''vboxmanage.IsVMInstalled: Box is not installed'' s1)
               else ((False, Some e), s1)
           | None \<Rightarrow> ((True, None), s1)))"

text \<open>
  The invocations of the process runner in a trace, the outputs handed to the remediation,
  and the sleeps, each in order.
\<close>

fun invocations :: "event list \<Rightarrow> string list list" where
  "invocations [] = []"
| "invocations (Exec argv logOutput # es) = argv # invocations es"
| "invocations (ExecOld argv # es) = argv # invocations es"
| "invocations (e # es) = invocations es"

fun remediations :: "event list \<Rightarrow> string list" where
  "remediations [] = []"
| "remediations (DetectAndFix output # es) = output # remediations es"
| "remediations (e # es) = remediations es"

fun sleeps :: "event list \<Rightarrow> nat list" where
  "sleeps [] = []"
| "sleeps (Sleep ms # es) = ms # sleeps es"
| "sleeps (e # es) = sleeps es"

subsection \<open>Sample collaborators\<close>

text \<open>
  A state with an empty cache and no call in progress, and collaborators built from the
  outcome of the process runner and the outcome of the remediation. The sample pattern
  compiler rejects the pattern \<open>(\<close>, as Go does, and gives every other pattern an empty
  match with one empty group at the start of the subject.
\<close>

definition idle_state :: state where
  "idle_state =
     \<lparr>vBoxResponseCache = (\<lambda>key. None), vBoxManageStarted = 0, clock = 5000, trace = []\<rparr>"

definition sample_env ::
  "(event list \<Rightarrow> string list \<Rightarrow> string \<times> error option) \<Rightarrow> (bool \<times> error option) \<Rightarrow> env" where
  "sample_env run fixResult =
     \<lparr>RunAndGetOutput_ext = (\<lambda>tr argv logOutput. (run tr argv, 100)),
      RunVBoxManage_ext = (\<lambda>tr argv. (run tr argv, 100)),
      detectAndFix_ext = (\<lambda>tr output. (fixResult, 300)),
      getVBoxManagePath = ''VBoxManage'',
      VBoxManageCacheTimeout = 30000,
      VBoxRunningCacheTimeout = 2000,
      regexp_MustCompile =
        (\<lambda>pattern. if pattern = ''('' then None
                   else Some (\<lambda>subject. Some [Some (0, 0), Some (0, 0)]))\<rparr>"

definition fails_until_fixed :: "event list \<Rightarrow> string list \<Rightarrow> string \<times> error option" where
  "fails_until_fixed tr argv =
     (if remediations tr = [] then
        (''UUID already exists'', Some (ExternalError ''exit status 1''))
      else (''done'', None))"

definition answers ::
  "string \<times> error option \<Rightarrow> event list \<Rightarrow> string list \<Rightarrow> string \<times> error option" where
  "answers result tr argv = result"

section \<open>Properties\<close>

subsection \<open>Traces\<close>

lemma invocations_append: "invocations (xs @ ys) = invocations xs @ invocations ys"
  by (induction xs rule: invocations.induct) simp_all

lemma remediations_append: "remediations (xs @ ys) = remediations xs @ remediations ys"
  by (induction xs rule: remediations.induct) simp_all

lemma trace_emit: "trace (emit e s) = trace s @ [e]"
  by (simp add: emit_def)

lemma trace_elapse: "trace (elapse d s) = trace s"
  by (simp add: elapse_def)

lemma trace_log_Debug: "trace (log_Debug m s) = trace s @ [Debug m]"
  by (simp add: log_Debug_def emit_def)

lemma trace_logError:
  "trace (logError c out e s) =
     trace s @ [Debug (''Failed to execute '' @ c @ '' ('' @ Error_msg e @ ''), complete output:''),
                Debug out]"
  by (simp add: logError_def trace_log_Debug)

lemma trace_RunAndGetOutput:
  "trace (snd (mebroutines_RunAndGetOutput env a lo s)) = trace s @ [Exec a lo]"
  by (simp add: mebroutines_RunAndGetOutput_def trace_elapse trace_emit split: prod.splits)

lemma trace_detectAndFix:
  "trace (snd (detectAndFixDuplicateHardDiskProblem env out s)) = trace s @ [DetectAndFix out]"
  by (simp add: detectAndFixDuplicateHardDiskProblem_def trace_elapse trace_emit
      split: prod.splits)

subsection \<open>The single retry of \<open>runVBoxManage\<close>\<close>

text \<open>
  Claim C1. Let the first invocation of the process runner by \<open>runVBoxManage\<close> fail, with
  output \<open>output1\<close>. The remediation is called once, on that output. If it reports
  \<open>fixed = true\<close>, the same command line is invoked once more (two invocations in all), and
  what \<open>runVBoxManage\<close> returns is the output and the error of that second invocation as
  they are, failed or not; if it reports \<open>fixed = false\<close>, the command line is invoked
  once only.
\<close>

theorem runVBoxManage_retry_once:
  assumes first: "mebroutines_RunAndGetOutput env (getVBoxManagePath env # args) logOutput s
                    = ((output1, Some e1), s1)"
    and rem: "detectAndFixDuplicateHardDiskProblem env output1
                (logError (strings_Join (getVBoxManagePath env # args) '' '') output1 e1 s1)
                = ((fixed, fixErr), s3)"
  shows "(fixed \<longrightarrow>
            fst (runVBoxManage env args logOutput s)
              = fst (mebroutines_RunAndGetOutput env (getVBoxManagePath env # args) logOutput
                      (log_Debug (''Retrying ''
                                    @ quoted (strings_Join (getVBoxManagePath env # args) '' '')
                                    @ '' after fixing problem'') s3))
          \<and> invocations (trace (snd (runVBoxManage env args logOutput s)))
              = invocations (trace s)
                @ [getVBoxManagePath env # args, getVBoxManagePath env # args])
       \<and> (\<not> fixed \<longrightarrow>
            invocations (trace (snd (runVBoxManage env args logOutput s)))
              = invocations (trace s) @ [getVBoxManagePath env # args])
       \<and> remediations (trace (snd (runVBoxManage env args logOutput s)))
              = remediations (trace s) @ [output1]"
proof -
  let ?runArgs = "getVBoxManagePath env # args"
  let ?cmd = "strings_Join ?runArgs '' ''"
  let ?retrying = "log_Debug (''Retrying '' @ quoted ?cmd @ '' after fixing problem'') s3"
  have t1: "trace s1 = trace s @ [Exec ?runArgs logOutput]"
    using trace_RunAndGetOutput [of env ?runArgs logOutput s] first by simp
  have t3: "trace s3 = trace (logError ?cmd output1 e1 s1) @ [DetectAndFix output1]"
    using trace_detectAndFix [of env output1 "logError ?cmd output1 e1 s1"] rem by simp
  show ?thesis
  proof (cases fixed)
    case True
    obtain r2 s5 where second:
      "mebroutines_RunAndGetOutput env ?runArgs logOutput ?retrying = (r2, s5)"
      by (cases "mebroutines_RunAndGetOutput env ?runArgs logOutput ?retrying")
    have t5: "trace s5 = trace ?retrying @ [Exec ?runArgs logOutput]"
      using trace_RunAndGetOutput [of env ?runArgs logOutput ?retrying] second by simp
    show ?thesis using True first rem second t1 t3 t5
      by (cases r2) (simp add: runVBoxManage_def Let_def trace_logError trace_log_Debug
          invocations_append remediations_append split: option.splits)
  next
    case False
    show ?thesis using False first rem t1 t3
      by (simp add: runVBoxManage_def Let_def trace_logError trace_log_Debug
          invocations_append remediations_append split: option.splits)
  qed
qed

theorem runVBoxManage_retry_once_witness:
  "fst (runVBoxManage (sample_env fails_until_fixed (True, None)) [''startvm''] True idle_state)
     = (''done'', None)
   \<and> invocations (trace (snd (runVBoxManage (sample_env fails_until_fixed (True, None))
                                [''startvm''] True idle_state)))
       = [[''VBoxManage'', ''startvm''], [''VBoxManage'', ''startvm'']]
   \<and> remediations (trace (snd (runVBoxManage (sample_env fails_until_fixed (True, None))
                                 [''startvm''] True idle_state)))
       = [''UUID already exists'']"
proof -
  let ?env = "sample_env fails_until_fixed (True, None)"
  let ?s1 = "elapse 100 (emit (Exec [''VBoxManage'', ''startvm''] True) idle_state)"
  let ?s2 = "logError (strings_Join (getVBoxManagePath ?env # [''startvm'']) '' '')
               ''UUID already exists'' (ExternalError ''exit status 1'') ?s1"
  let ?s3 = "elapse 300 (emit (DetectAndFix ''UUID already exists'') ?s2)"
  have p: "getVBoxManagePath ?env = ''VBoxManage''"
    by (simp add: sample_env_def)
  have h1: "mebroutines_RunAndGetOutput ?env (getVBoxManagePath ?env # [''startvm'']) True
              idle_state
            = ((''UUID already exists'', Some (ExternalError ''exit status 1'')), ?s1)"
    by (simp add: mebroutines_RunAndGetOutput_def sample_env_def fails_until_fixed_def
        idle_state_def)
  have h2: "detectAndFixDuplicateHardDiskProblem ?env ''UUID already exists'' ?s2
            = ((True, None), ?s3)"
    by (simp add: detectAndFixDuplicateHardDiskProblem_def sample_env_def)
  have r: "fst (mebroutines_RunAndGetOutput ?env (getVBoxManagePath ?env # [''startvm'']) True
                 (log_Debug (''Retrying ''
                               @ quoted (strings_Join (getVBoxManagePath ?env # [''startvm'']) '' '')
                               @ '' after fixing problem'') ?s3))
           = (''done'', None)"
    by (simp add: mebroutines_RunAndGetOutput_def sample_env_def fails_until_fixed_def
        trace_log_Debug trace_elapse trace_emit trace_logError remediations_append
        split: prod.splits)
  have t: "trace idle_state = []"
    by (simp add: idle_state_def)
  show ?thesis
    using runVBoxManage_retry_once [OF h1 h2] r t p by simp
qed

subsection \<open>What a command leaves unchanged\<close>

lemma wait_idle: "vBoxManageStarted s = 0 \<Longrightarrow> wait_for_VBoxManage caller n s = s"
  by (subst wait_for_VBoxManage.simps) simp

lemma cache_emit [simp]: "vBoxResponseCache (emit e s) = vBoxResponseCache s"
  by (simp add: emit_def)
lemma cache_elapse [simp]: "vBoxResponseCache (elapse d s) = vBoxResponseCache s"
  by (simp add: elapse_def)
lemma cache_log_Debug [simp]: "vBoxResponseCache (log_Debug m s) = vBoxResponseCache s"
  by (simp add: log_Debug_def)
lemma cache_logError [simp]: "vBoxResponseCache (logError c out e s) = vBoxResponseCache s"
  by (simp add: logError_def)
lemma clock_emit [simp]: "clock (emit e s) = clock s"
  by (simp add: emit_def)
lemma clock_elapse [simp]: "clock (elapse d s) = clock s + d"
  by (simp add: elapse_def)
lemma clock_log_Debug [simp]: "clock (log_Debug m s) = clock s"
  by (simp add: log_Debug_def)
lemma clock_logError [simp]: "clock (logError c out e s) = clock s"
  by (simp add: logError_def)
lemma started_emit [simp]: "vBoxManageStarted (emit e s) = vBoxManageStarted s"
  by (simp add: emit_def)
lemma started_elapse [simp]: "vBoxManageStarted (elapse d s) = vBoxManageStarted s"
  by (simp add: elapse_def)
lemma started_log_Debug [simp]: "vBoxManageStarted (log_Debug m s) = vBoxManageStarted s"
  by (simp add: log_Debug_def)
lemma started_logError [simp]: "vBoxManageStarted (logError c out e s) = vBoxManageStarted s"
  by (simp add: logError_def)

lemma wait_frame:
  "vBoxResponseCache (wait_for_VBoxManage caller n s) = vBoxResponseCache s
   \<and> invocations (trace (wait_for_VBoxManage caller n s)) = invocations (trace s)
   \<and> remediations (trace (wait_for_VBoxManage caller n s)) = remediations (trace s)
   \<and> clock s \<le> clock (wait_for_VBoxManage caller n s)"
proof (induction caller n s rule: wait_for_VBoxManage.induct)
  case (1 caller tryCounter s)
  show ?case
  proof (cases "vBoxManageStarted s \<noteq> 0 \<and> tryCounter < 240")
    case True
    let ?s' = "log_Debug (caller @ '' is waiting VBoxManage to exit (race condition lock count ''
                          @ decimal (tryCounter + 1) @ '')'') (time_Sleep 500 s)"
    from True have step: "wait_for_VBoxManage caller tryCounter s
        = wait_for_VBoxManage caller (tryCounter + 1) ?s'"
      by (subst wait_for_VBoxManage.simps) simp
    have s': "vBoxResponseCache ?s' = vBoxResponseCache s"
      "invocations (trace ?s') = invocations (trace s)"
      "remediations (trace ?s') = remediations (trace s)"
      "clock s \<le> clock ?s'"
      by (simp_all add: time_Sleep_def trace_log_Debug trace_elapse trace_emit
          invocations_append remediations_append)
    show ?thesis
      using 1 [OF True] s' by (simp only: step) simp
  next
    case False
    then have "wait_for_VBoxManage caller tryCounter s = s"
      by (subst wait_for_VBoxManage.simps) auto
    then show ?thesis by simp
  qed
qed

text \<open>
  With the flag set and nobody to clear it, the loop sleeps 500 ms until the counter
  reaches 240, and then gives up waiting.
\<close>

lemma sleeps_append: "sleeps (xs @ ys) = sleeps xs @ sleeps ys"
  by (induction xs rule: sleeps.induct) simp_all

lemma wait_ceiling:
  assumes "vBoxManageStarted s \<noteq> 0" and "n \<le> 240"
  shows "vBoxManageStarted (wait_for_VBoxManage caller n s) = vBoxManageStarted s
       \<and> sleeps (trace (wait_for_VBoxManage caller n s))
           = sleeps (trace s) @ replicate (240 - n) 500
       \<and> clock (wait_for_VBoxManage caller n s) = clock s + 500 * (240 - n)"
  using assms
proof (induction caller n s rule: wait_for_VBoxManage.induct)
  case (1 caller tryCounter s)
  show ?case
  proof (cases "tryCounter < 240")
    case True
    let ?s' = "log_Debug (caller @ '' is waiting VBoxManage to exit (race condition lock count ''
                          @ decimal (tryCounter + 1) @ '')'') (time_Sleep 500 s)"
    from True "1.prems" have c: "vBoxManageStarted s \<noteq> 0 \<and> tryCounter < 240"
      by simp
    then have step: "wait_for_VBoxManage caller tryCounter s
        = wait_for_VBoxManage caller (tryCounter + 1) ?s'"
      by (subst wait_for_VBoxManage.simps) simp
    have s': "vBoxManageStarted ?s' = vBoxManageStarted s"
      "sleeps (trace ?s') = sleeps (trace s) @ [500]"
      "clock ?s' = clock s + 500"
      by (simp_all add: time_Sleep_def trace_log_Debug trace_elapse trace_emit sleeps_append)
    have n: "240 - tryCounter = Suc (240 - (tryCounter + 1))"
      using True by simp
    have ih: "vBoxManageStarted (wait_for_VBoxManage caller (tryCounter + 1) ?s')
                = vBoxManageStarted ?s'
       \<and> sleeps (trace (wait_for_VBoxManage caller (tryCounter + 1) ?s'))
           = sleeps (trace ?s') @ replicate (240 - (tryCounter + 1)) 500
       \<and> clock (wait_for_VBoxManage caller (tryCounter + 1) ?s')
           = clock ?s' + 500 * (240 - (tryCounter + 1))"
      using "1.IH" [OF c] "1.prems"(1) True s'(1) by simp
    show ?thesis
      unfolding step n using ih s' by (simp add: replicate_app_Cons_same)
  next
    case False
    then have "wait_for_VBoxManage caller tryCounter s = s"
      by (subst wait_for_VBoxManage.simps) auto
    moreover from False "1.prems" have "tryCounter = 240" by simp
    ultimately show ?thesis by simp
  qed
qed

lemma RunAndGetOutput_effects:
  assumes "mebroutines_RunAndGetOutput env a lo s = (r, s')"
  shows "trace s' = trace s @ [Exec a lo]"
    and "vBoxResponseCache s' = vBoxResponseCache s"
    and "clock s \<le> clock s'"
    and "vBoxManageStarted s' = vBoxManageStarted s"
  using assms
  by (auto simp add: mebroutines_RunAndGetOutput_def trace_elapse trace_emit split: prod.splits)

lemma detectAndFix_effects:
  assumes "detectAndFixDuplicateHardDiskProblem env out s = (r, s')"
  shows "trace s' = trace s @ [DetectAndFix out]"
    and "vBoxResponseCache s' = vBoxResponseCache s"
    and "clock s \<le> clock s'"
    and "vBoxManageStarted s' = vBoxManageStarted s"
  using assms
  by (auto simp add: detectAndFixDuplicateHardDiskProblem_def trace_elapse trace_emit
      split: prod.splits)

lemma runVBoxManage_effects:
  "vBoxResponseCache (snd (runVBoxManage env args lo s)) = vBoxResponseCache s
   \<and> clock s \<le> clock (snd (runVBoxManage env args lo s))
   \<and> vBoxManageStarted (snd (runVBoxManage env args lo s)) = vBoxManageStarted s
   \<and> (invocations (trace (snd (runVBoxManage env args lo s)))
        = invocations (trace s) @ [getVBoxManagePath env # args]
      \<or> invocations (trace (snd (runVBoxManage env args lo s)))
        = invocations (trace s) @ [getVBoxManagePath env # args, getVBoxManagePath env # args])"
proof -
  let ?runArgs = "getVBoxManagePath env # args"
  let ?cmd = "strings_Join ?runArgs '' ''"
  obtain out1 err1 s1 where first:
    "mebroutines_RunAndGetOutput env ?runArgs lo s = ((out1, err1), s1)"
    by (metis surj_pair)
  note e1 = RunAndGetOutput_effects [OF first]
  show ?thesis
  proof (cases err1)
    case None
    then show ?thesis using first e1
      by (simp add: runVBoxManage_def Let_def invocations_append)
  next
    case (Some e)
    let ?s2 = "logError ?cmd out1 e s1"
    obtain fixed fixErr s3 where rem:
      "detectAndFixDuplicateHardDiskProblem env out1 ?s2 = ((fixed, fixErr), s3)"
      by (metis surj_pair)
    note e3 = detectAndFix_effects [OF rem]
    show ?thesis
    proof (cases fixed)
      case True
      let ?s4 = "log_Debug (''Retrying '' @ quoted ?cmd @ '' after fixing problem'') s3"
      obtain out2 err2 s5 where second:
        "mebroutines_RunAndGetOutput env ?runArgs lo ?s4 = ((out2, err2), s5)"
        by (metis surj_pair)
      note e5 = RunAndGetOutput_effects [OF second]
      show ?thesis using Some True first rem second e1 e3 e5
        by (cases err2)
           (simp_all add: runVBoxManage_def Let_def invocations_append trace_logError
              trace_log_Debug)
    next
      case False
      show ?thesis using Some False first rem e1 e3
        by (cases fixErr)
           (simp_all add: runVBoxManage_def Let_def invocations_append trace_logError
              trace_log_Debug)
    qed
  qed
qed

lemma runCommand_effects:
  "vBoxResponseCache (snd (runCommand env args lo s)) = vBoxResponseCache s
   \<and> clock s \<le> clock (snd (runCommand env args lo s))
   \<and> (invocations (trace (snd (runCommand env args lo s)))
        = invocations (trace s) @ [getVBoxManagePath env # args]
      \<or> invocations (trace (snd (runCommand env args lo s)))
        = invocations (trace s) @ [getVBoxManagePath env # args, getVBoxManagePath env # args])"
proof -
  let ?s1 = "wait_for_VBoxManage ''RunCommand'' 0 s"
  let ?s2 = "?s1\<lparr>vBoxManageStarted := time_Now_Unix ?s1\<rparr>"
  have a: "vBoxResponseCache ?s2 = vBoxResponseCache s" "clock s \<le> clock ?s2"
    "invocations (trace ?s2) = invocations (trace s)"
    using wait_frame [of "''RunCommand''" 0 s] by simp_all
  obtain r s3 where run: "runVBoxManage env args lo ?s2 = (r, s3)"
    by (metis surj_pair)
  have b: "runCommand env args lo s = (r, s3\<lparr>vBoxManageStarted := 0\<rparr>)"
    using run by (cases r) (simp add: runCommand_def Let_def)
  show ?thesis
    using runVBoxManage_effects [of env args lo ?s2] a run unfolding b by simp
qed

lemma runCommand_idle:
  assumes "vBoxManageStarted s = 0"
  shows "fst (runCommand env args lo s) = fst (runVBoxManage env args lo (s\<lparr>vBoxManageStarted := time_Now_Unix s\<rparr>))"
proof -
  have "wait_for_VBoxManage ''RunCommand'' 0 s = s"
    using assms by (rule wait_idle)
  then show ?thesis
    by (cases "runVBoxManage env args lo (s\<lparr>vBoxManageStarted := time_Now_Unix s\<rparr>)")
       (simp add: runCommand_def Let_def split: prod.splits)
qed

subsection \<open>Substrings\<close>

lemma strings_Contains_iff:
  "strings_Contains x sub \<longleftrightarrow> (\<exists>pre post. x = pre @ sub @ post)"
proof (induction x)
  case Nil
  show ?case by simp
next
  case (Cons c cs)
  have here: "take (length sub) (c # cs) = sub \<longleftrightarrow> (\<exists>post. c # cs = sub @ post)"
    by (metis append_eq_conv_conj)
  have split: "(\<exists>pre post. c # cs = pre @ sub @ post)
        \<longleftrightarrow> (\<exists>post. c # cs = sub @ post) \<or> (\<exists>pre post. cs = pre @ sub @ post)"
  proof
    assume "\<exists>pre post. c # cs = pre @ sub @ post"
    then obtain pre post where eq: "c # cs = pre @ sub @ post" by blast
    show "(\<exists>post. c # cs = sub @ post) \<or> (\<exists>pre post. cs = pre @ sub @ post)"
    proof (cases pre)
      case Nil
      with eq have "c # cs = sub @ post" by simp
      then show ?thesis by blast
    next
      case (Cons p ps)
      with eq have "cs = ps @ sub @ post" by simp
      then show ?thesis by blast
    qed
  next
    assume "(\<exists>post. c # cs = sub @ post) \<or> (\<exists>pre post. cs = pre @ sub @ post)"
    then show "\<exists>pre post. c # cs = pre @ sub @ post"
    proof
      assume "\<exists>post. c # cs = sub @ post"
      then obtain post where "c # cs = sub @ post" by blast
      then have "c # cs = [] @ sub @ post" by simp
      then show ?thesis by blast
    next
      assume "\<exists>pre post. cs = pre @ sub @ post"
      then obtain pre post where "cs = pre @ sub @ post" by blast
      then have "c # cs = (c # pre) @ sub @ post" by simp
      then show ?thesis by blast
    qed
  qed
  have "strings_Contains (c # cs) sub
        \<longleftrightarrow> take (length sub) (c # cs) = sub \<or> strings_Contains cs sub"
    by simp
  also have "\<dots> \<longleftrightarrow> (\<exists>post. c # cs = sub @ post) \<or> (\<exists>pre post. cs = pre @ sub @ post)"
    by (simp only: here Cons.IH)
  also have "\<dots> \<longleftrightarrow> (\<exists>pre post. c # cs = pre @ sub @ post)"
    by (simp only: split)
  finally show ?case .
qed

subsection \<open>Evaluating a command\<close>

lemma trace_started_update [simp]: "trace (s\<lparr>vBoxManageStarted := x\<rparr>) = trace s"
  by simp

lemma runVBoxManage_succeeds:
  assumes "fst (RunAndGetOutput_ext env (trace s) (getVBoxManagePath env # args) lo) = (out, None)"
  shows "fst (runVBoxManage env args lo s) = (out, None)"
proof -
  obtain d where a: "RunAndGetOutput_ext env (trace s) (getVBoxManagePath env # args) lo = ((out, None), d)"
    using assms by (metis fst_conv surj_pair)
  show ?thesis
    by (simp add: runVBoxManage_def Let_def mebroutines_RunAndGetOutput_def a)
qed

lemma runVBoxManage_not_fixed:
  assumes "fst (RunAndGetOutput_ext env (trace s) (getVBoxManagePath env # args) lo) = (out, Some e)"
    and "\<And>tr. fst (detectAndFix_ext env tr out) = (False, None)"
  shows "fst (runVBoxManage env args lo s) = (out, Some e)"
proof -
  obtain d where a: "RunAndGetOutput_ext env (trace s) (getVBoxManagePath env # args) lo = ((out, Some e), d)"
    using assms(1) by (metis fst_conv surj_pair)
  have b: "\<And>tr. \<exists>d'. detectAndFix_ext env tr out = ((False, None), d')"
    using assms(2) by (metis fst_conv surj_pair)
  obtain d' where c: "detectAndFix_ext env
      (trace (logError (strings_Join (getVBoxManagePath env # args) '' '') out e
         (elapse d (emit (Exec (getVBoxManagePath env # args) lo) s)))) out = ((False, None), d')"
    using b by blast
  show ?thesis
    by (simp add: runVBoxManage_def Let_def mebroutines_RunAndGetOutput_def a c
        detectAndFixDuplicateHardDiskProblem_def)
qed

lemma runCommand_succeeds:
  assumes "vBoxManageStarted s = 0"
    and "fst (RunAndGetOutput_ext env (trace s) (getVBoxManagePath env # args) lo) = (out, None)"
  shows "fst (runCommand env args lo s) = (out, None)"
  using assms runVBoxManage_succeeds [of env "s\<lparr>vBoxManageStarted := time_Now_Unix s\<rparr>" args lo out]
  by (simp add: runCommand_idle)

lemma runCommand_not_fixed:
  assumes "vBoxManageStarted s = 0"
    and "fst (RunAndGetOutput_ext env (trace s) (getVBoxManagePath env # args) lo) = (out, Some e)"
    and "\<And>tr. fst (detectAndFix_ext env tr out) = (False, None)"
  shows "fst (runCommand env args lo s) = (out, Some e)"
  using assms runVBoxManage_not_fixed [of env "s\<lparr>vBoxManageStarted := time_Now_Unix s\<rparr>" args lo out e]
  by (simp add: runCommand_idle)

lemma idle_started: "vBoxManageStarted idle_state = 0"
  by (simp add: idle_state_def)

lemma idle_cache: "cache_Get idle_state key = None"
  by (simp add: idle_state_def cache_Get_def)

lemma sample_runCommand_ok:
  "fst (runCommand (sample_env (answers (out, None)) fixResult) args lo idle_state) = (out, None)"
  by (rule runCommand_succeeds) (simp_all add: idle_started sample_env_def answers_def)

lemma sample_runCommand_failed:
  "fst (runCommand (sample_env (answers (out, Some e)) (False, None)) args lo idle_state)
     = (out, Some e)"
  by (rule runCommand_not_fixed) (simp_all add: idle_started sample_env_def answers_def)

lemma contains_not_registered:
  "\<exists>pre post. ''error: Could not find a registered machine named exam''
      = pre @ ''Could not find a registered machine named'' @ post"
proof -
  have "''error: Could not find a registered machine named exam''
      = ''error: '' @ ''Could not find a registered machine named'' @ '' exam''"
    by simp
  then show ?thesis by blast
qed

subsection \<open>The leftmost match of the guest property patterns\<close>

lemma find_leftmost_skip:
  assumes at: "\<And>x. at x \<noteq> [] \<Longrightarrow> take n x = key"
    and n: "n = length key"
    and len: "n \<le> Suc (length w)"
    and first: "\<not> strings_Contains (pre @ w) key"
  shows "find_leftmost at (pre @ w @ rest) = find_leftmost at (w @ rest)"
  using first
proof (induction pre)
  case Nil
  show ?case by simp
next
  case (Cons c cs)
  from Cons.prems
  have "\<not> (take (length key) (c # cs @ w) = key \<or> strings_Contains (cs @ w) key)"
    unfolding append_Cons strings_Contains.simps .
  then have here: "take n (c # cs @ w) \<noteq> key"
    and later: "\<not> strings_Contains (cs @ w) key"
    unfolding n by blast+
  have "take n ((c # cs @ w) @ rest) = take n (c # cs @ w)"
    using len by (simp only: take_append) simp
  then have eq: "take n (c # cs @ w @ rest) = take n (c # cs @ w)"
    by (simp only: append_Cons append_assoc)
  from here have "take n (c # cs @ w @ rest) \<noteq> key"
    unfolding eq .
  with at have "at (c # cs @ w @ rest) = []"
    by blast
  then have "find_leftmost at ((c # cs) @ w @ rest) = find_leftmost at (cs @ w @ rest)"
    by simp
  with Cons.IH [OF later] show ?case by simp
qed

lemma propRegexp_at_Value: "propRegexp_at x \<noteq> [] \<Longrightarrow> take 6 x = ''Value:''"
  by (simp add: propRegexp_at_def split: if_splits)

lemma propRegexp_old_at_Value:
  "propRegexp_old_at x \<noteq> [] \<Longrightarrow> take 6 x = ''Value:''"
proof -
  assume "propRegexp_old_at x \<noteq> []"
  then have "take 7 x = ''Value: ''"
    by (simp add: propRegexp_old_at_def split: if_splits)
  then have "take 6 (take 7 x) = take 6 ''Value: ''" by (rule arg_cong)
  then show ?thesis by simp
qed

lemma propRegexp_exam_mode:
  "find_leftmost propRegexp_at (''Value: exam-mode'' @ post) = [''Value: exam'', ''exam'']"
  by (simp add: propRegexp_at_def is_space_def is_word_def Let_def)

lemma propRegexp_old_exam_mode:
  "find_leftmost propRegexp_old_at (''Value: exam-mode'' @ post)
     = [''Value: exam-mode'' @ takeWhile not_newline post, ''exam-mode'' @ takeWhile not_newline post]"
  by (simp add: propRegexp_old_at_def not_newline_def Let_def)

lemma value_first:
  assumes "\<not> (\<exists>p q. pre @ ''Value'' = p @ ''Value:'' @ q)"
  shows "find_leftmost propRegexp_at (pre @ ''Value: exam-mode'' @ post) = [''Value: exam'', ''exam'']"
    and "find_leftmost propRegexp_old_at (pre @ ''Value: exam-mode'' @ post)
     = [''Value: exam-mode'' @ takeWhile not_newline post, ''exam-mode'' @ takeWhile not_newline post]"
proof -
  have c: "\<not> strings_Contains (pre @ ''Value'') ''Value:''"
    using assms by (simp only: strings_Contains_iff not_False_eq_True)
  have e: "pre @ ''Value: exam-mode'' @ post = pre @ ''Value'' @ '': exam-mode'' @ post"
    by simp
  have f: "''Value'' @ '': exam-mode'' @ post = ''Value: exam-mode'' @ post"
    by simp
  show "find_leftmost propRegexp_at (pre @ ''Value: exam-mode'' @ post) = [''Value: exam'', ''exam'']"
    unfolding e
    by (subst find_leftmost_skip [where key = "''Value:''" and n = 6, OF propRegexp_at_Value _ _ c])
       (simp_all add: propRegexp_exam_mode [simplified])
  show "find_leftmost propRegexp_old_at (pre @ ''Value: exam-mode'' @ post)
     = [''Value: exam-mode'' @ takeWhile not_newline post, ''exam-mode'' @ takeWhile not_newline post]"
    unfolding e
    by (subst find_leftmost_skip [where key = "''Value:''" and n = 6, OF propRegexp_old_at_Value _ _ c])
       (simp_all add: propRegexp_old_exam_mode [simplified])
qed

lemma CallRunVBoxManage_idle:
  assumes "vBoxManageStarted s = 0"
  shows "fst (CallRunVBoxManage env args s) = fst (RunVBoxManage_ext env (trace s) args)"
proof -
  have "wait_for_VBoxManage ''CallRunVBoxManage'' 0 s = s"
    using assms by (rule wait_idle)
  then show ?thesis
    by (simp add: CallRunVBoxManage_def Let_def mebroutines_RunVBoxManage_def split: prod.splits)
qed

lemma sample_CallRunVBoxManage:
  "fst (CallRunVBoxManage (sample_env (answers result) fixResult) args idle_state) = result"
  by (simp add: CallRunVBoxManage_idle idle_started sample_env_def answers_def)

lemma GetVMProperty_miss_value:
  assumes "cache_Get s property = None"
    and "fst (RunCommand env [''guestproperty'', ''get'', vmName, property] s) = (output, None)"
  shows "fst (GetVMProperty env vmName property s)
         = (if find_leftmost propRegexp_at output \<noteq> []
            then find_leftmost propRegexp_at output ! 1 else [])"
proof -
  obtain s1 where r: "RunCommand env [''guestproperty'', ''get'', vmName, property] s
            = ((output, None), s1)"
    using assms(2) by (metis fst_conv surj_pair)
  show ?thesis
    by (simp add: GetVMProperty_def assms(1) r cache_Set_def Let_def)
qed

lemma GetBoxProperty_miss_value:
  assumes "cache_Get s property = None"
    and "fst (CallRunVBoxManage env [''guestproperty'', ''get'', boxName, property] s) = (output, None)"
  shows "fst (GetBoxProperty env boxName property s)
         = (if length (find_leftmost propRegexp_old_at output) = 2
            then find_leftmost propRegexp_old_at output ! 1 else [])"
proof -
  obtain s1 where r: "CallRunVBoxManage env [''guestproperty'', ''get'', boxName, property] s
            = ((output, None), s1)"
    using assms(2) by (metis fst_conv surj_pair)
  show ?thesis
    by (simp add: GetBoxProperty_def assms(1) r cache_Set_def Let_def)
qed

subsection \<open>The version pattern and semantic versions\<close>

lemma dot_not_digit: "\<not> is_digit CHR ''.''"
  by (simp add: is_digit_def)

lemma takeWhile_digits:
  assumes "list_all is_digit a" and "r = [] \<or> \<not> is_digit (hd r)"
  shows "takeWhile is_digit (a @ r) = a" and "dropWhile is_digit (a @ r) = r"
proof -
  have a: "\<forall>x\<in>set a. is_digit x"
    using assms(1) by (simp add: list_all_iff)
  have t: "takeWhile is_digit r = []" and d: "dropWhile is_digit r = r"
    using assms(2) by (cases r; simp)+
  show "takeWhile is_digit (a @ r) = a"
    using a t by simp
  show "dropWhile is_digit (a @ r) = r"
    using a d by simp
qed

lemma versionRegexp_match:
  assumes "a \<noteq> []" "b \<noteq> []" "c \<noteq> []"
    and "list_all is_digit a" "list_all is_digit b" "list_all is_digit c"
    and "r = [] \<or> \<not> is_digit (hd r)"
  shows "versionRegexp_FindStringSubmatch (a @ ''.'' @ b @ ''.'' @ c @ r)
         = [a @ ''.'' @ b @ ''.'' @ c, a @ ''.'' @ b @ ''.'' @ c]"
proof -
  have 1: "takeWhile is_digit (a @ ''.'' @ b @ ''.'' @ c @ r) = a"
    "dropWhile is_digit (a @ ''.'' @ b @ ''.'' @ c @ r) = CHR ''.'' # b @ ''.'' @ c @ r"
    using takeWhile_digits [OF assms(4), of "''.'' @ b @ ''.'' @ c @ r"] dot_not_digit
    by simp_all
  have 2: "takeWhile is_digit (b @ ''.'' @ c @ r) = b"
    "dropWhile is_digit (b @ ''.'' @ c @ r) = CHR ''.'' # c @ r"
    using takeWhile_digits [OF assms(5), of "''.'' @ c @ r"] dot_not_digit
    by simp_all
  have 3: "takeWhile is_digit (c @ r) = c"
    using takeWhile_digits [OF assms(6,7)] by simp
  note 1 [simplified, simp] 2 [simplified, simp] 3 [simp]
  show ?thesis
    using assms(1,2,3) by (simp add: versionRegexp_FindStringSubmatch_def Let_def)
qed

lemma versionRegexp_shape:
  assumes "versionRegexp_FindStringSubmatch x \<noteq> []"
  shows "\<exists>a b c r. x = a @ ''.'' @ b @ ''.'' @ c @ r \<and> a \<noteq> [] \<and> b \<noteq> [] \<and> c \<noteq> []
           \<and> list_all is_digit (a @ b @ c) \<and> (r = [] \<or> \<not> is_digit (hd r))
           \<and> versionRegexp_FindStringSubmatch x
               = [a @ ''.'' @ b @ ''.'' @ c, a @ ''.'' @ b @ ''.'' @ c]"
proof -
  let ?a = "takeWhile is_digit x"
  from assms have a: "?a \<noteq> []"
    by (auto simp add: versionRegexp_FindStringSubmatch_def Let_def)
  from assms a obtain x1 where x1: "dropWhile is_digit x = CHR ''.'' # x1"
    by (auto simp add: versionRegexp_FindStringSubmatch_def Let_def split: list.splits if_splits)
  let ?b = "takeWhile is_digit x1"
  from assms a x1 have b: "?b \<noteq> []"
    by (auto simp add: versionRegexp_FindStringSubmatch_def Let_def)
  from assms a x1 b obtain x2 where x2: "dropWhile is_digit x1 = CHR ''.'' # x2"
    by (auto simp add: versionRegexp_FindStringSubmatch_def Let_def split: list.splits if_splits)
  let ?c = "takeWhile is_digit x2"
  let ?r = "dropWhile is_digit x2"
  from assms a x1 b x2 have c: "?c \<noteq> []"
    by (auto simp add: versionRegexp_FindStringSubmatch_def Let_def)
  have m: "versionRegexp_FindStringSubmatch x
               = [?a @ ''.'' @ ?b @ ''.'' @ ?c, ?a @ ''.'' @ ?b @ ''.'' @ ?c]"
    using a x1 b x2 c by (simp add: versionRegexp_FindStringSubmatch_def Let_def)
  have "x = ?a @ dropWhile is_digit x" by simp
  also have "\<dots> = ?a @ ''.'' @ x1" using x1 by simp
  also have "x1 = ?b @ dropWhile is_digit x1" by simp
  also have "dropWhile is_digit x1 = ''.'' @ x2" using x2 by simp
  also have "x2 = ?c @ ?r" by simp
  finally have x: "x = ?a @ ''.'' @ ?b @ ''.'' @ ?c @ ?r" .
  have d: "list_all is_digit (?a @ ?b @ ?c)"
    by (auto simp add: list_all_iff dest: set_takeWhileD)
  have r: "?r = [] \<or> \<not> is_digit (hd ?r)"
    by (metis hd_dropWhile)
  from x a b c d r m show ?thesis by blast
qed

lemma versionRegexp_matches_iff:
  "versionRegexp_FindStringSubmatch x \<noteq> []
   \<longleftrightarrow> (\<exists>a b c r. x = a @ ''.'' @ b @ ''.'' @ c @ r \<and> a \<noteq> [] \<and> b \<noteq> [] \<and> c \<noteq> []
          \<and> list_all is_digit (a @ b @ c))"
proof
  assume "versionRegexp_FindStringSubmatch x \<noteq> []"
  from versionRegexp_shape [OF this] show "\<exists>a b c r. x = a @ ''.'' @ b @ ''.'' @ c @ r
      \<and> a \<noteq> [] \<and> b \<noteq> [] \<and> c \<noteq> [] \<and> list_all is_digit (a @ b @ c)"
    by blast
next
  assume "\<exists>a b c r. x = a @ ''.'' @ b @ ''.'' @ c @ r \<and> a \<noteq> [] \<and> b \<noteq> [] \<and> c \<noteq> []
          \<and> list_all is_digit (a @ b @ c)"
  then obtain a b c r where x: "x = a @ ''.'' @ b @ ''.'' @ c @ r"
    and ne: "a \<noteq> []" "b \<noteq> []" "c \<noteq> []"
    and d: "list_all is_digit a" "list_all is_digit b" "list_all is_digit c"
    by auto
  let ?c = "c @ takeWhile is_digit r"
  let ?r = "dropWhile is_digit r"
  have x': "x = a @ ''.'' @ b @ ''.'' @ ?c @ ?r"
    using x by simp
  have "list_all is_digit ?c"
    using d(3) by (auto simp add: list_all_iff dest: set_takeWhileD)
  moreover have "?c \<noteq> []" using ne(3) by simp
  moreover have "?r = [] \<or> \<not> is_digit (hd ?r)" by (metis hd_dropWhile)
  ultimately have "versionRegexp_FindStringSubmatch (a @ ''.'' @ b @ ''.'' @ ?c @ ?r)
         = [a @ ''.'' @ b @ ''.'' @ ?c, a @ ''.'' @ b @ ''.'' @ ?c]"
    using versionRegexp_match [OF ne(1,2) _ d(1,2)] by blast
  then show "versionRegexp_FindStringSubmatch x \<noteq> []"
    unfolding x' by simp
qed

lemma cut_at_separator:
  assumes "sep \<notin> set a"
  shows "cut sep (a @ sep # rest) = (a, Some rest)"
proof -
  have "\<forall>x\<in>set a. x \<noteq> sep" using assms by blast
  then show ?thesis
    by (simp add: cut_def)
qed

lemma cut_without_separator:
  assumes "sep \<notin> set x"
  shows "cut sep x = (x, None)"
proof -
  have "dropWhile (\<lambda>c. c \<noteq> sep) x = []"
    using assms by auto
  then show ?thesis unfolding cut_def by (simp only: list.case)
qed

lemma digits_without:
  assumes "list_all is_digit a" and "\<not> is_digit sep"
  shows "sep \<notin> set a"
  using assms by (auto simp add: list_all_iff)

lemma parse_number_digits:
  assumes "list_all is_digit x" and "x \<noteq> []"
  shows "parse_number what x
         = (if hasLeadingZeroes x then
              Inl (errorString (what @ '' number must not contain leading zeroes '' @ x))
            else if decimal_value x \<ge> 2 ^ 64 then
              Inl (errorString (''parsing '' @ x @ '': value out of range''))
            else Inr (decimal_value x))"
  using assms by (simp add: parse_number_def)

lemma semver_Make_triple:
  assumes "a \<noteq> []" "b \<noteq> []" "c \<noteq> []"
    and "list_all is_digit a" "list_all is_digit b" "list_all is_digit c"
  shows "semver_Make (a @ ''.'' @ b @ ''.'' @ c)
         = (case parse_number ''major'' a of
              Inl e \<Rightarrow> (Version_zero, Some e)
            | Inr major \<Rightarrow>
               (case parse_number ''minor'' b of
                  Inl e \<Rightarrow> (Version_zero, Some e)
                | Inr minor \<Rightarrow>
                   (case parse_number ''patch'' c of
                      Inl e \<Rightarrow> (Version_zero, Some e)
                    | Inr patch \<Rightarrow>
                        (\<lparr>Major = major, Minor = minor, Patch = patch, Pre = [], Build = []\<rparr>,
                         None))))"
proof -
  have 1: "cut CHR ''.'' (a @ CHR ''.'' # b @ CHR ''.'' # c) = (a, Some (b @ CHR ''.'' # c))"
    by (rule cut_at_separator) (rule digits_without [OF assms(4) dot_not_digit])
  have 2: "cut CHR ''.'' (b @ CHR ''.'' # c) = (b, Some c)"
    by (rule cut_at_separator) (rule digits_without [OF assms(5) dot_not_digit])
  have 3: "cut CHR ''+'' c = (c, None)"
    by (rule cut_without_separator) (rule digits_without [OF assms(6)], simp add: is_digit_def)
  have 4: "cut CHR ''-'' c = (c, None)"
    by (rule cut_without_separator) (rule digits_without [OF assms(6)], simp add: is_digit_def)
  show ?thesis
    using assms(1)
    by (simp add: semver_Make_def 1 2 3 4 split: sum.splits)
qed

lemma semver_Make_6_1_26:
  "semver_Make ''6.1.26'' = (\<lparr>Major = 6, Minor = 1, Patch = 26, Pre = [], Build = []\<rparr>, None)"
  by (simp add: semver_Make_def cut_def parse_number_def is_digit_def hasLeadingZeroes_def
      decimal_value_def digit_value_def)

lemma semver_Make_leading_zero:
  "snd (semver_Make ''6.01.26'') \<noteq> None"
  by (simp add: semver_Make_def cut_def parse_number_def is_digit_def hasLeadingZeroes_def
      decimal_value_def digit_value_def)

lemma GetVBoxManageVersion_miss_value:
  assumes "cache_Get s ''vboxmanageversion'' = None"
    and "fst (RunCommand env [''--version''] s) = (output, None)"
  shows "fst (GetVBoxManageVersion env s)
         = (if versionRegexp_FindStringSubmatch output = [] then
              (Version_zero,
               Some (errorString (''could not find semantic version string from vboxmanage version ''
                                    @ quoted output)))
            else
              (case semver_Make (versionRegexp_FindStringSubmatch output ! 1) of
                 (v, None) \<Rightarrow> (v, None)
               | (v, Some errSemVer) \<Rightarrow>
                   (Version_zero,
                    Some (errorString (''vboxmanage version ''
                            @ versionRegexp_FindStringSubmatch output ! 1
                            @ '' is not a semantic version number: '' @ Error_msg errSemVer)))))"
proof -
  obtain s1 where r: "RunCommand env [''--version''] s = ((output, None), s1)"
    using assms(2) by (metis fst_conv surj_pair)
  show ?thesis
    by (simp add: GetVBoxManageVersion_def getVBoxManageVersionSemanticPart_def assms(1) r
        cache_Set_def Let_def split: prod.splits option.splits)
qed

subsection \<open>Cache hits and misses\<close>

lemma cache_hit:
  assumes "vBoxResponseCache s key = Some (v, expiresAt)" and "clock s < expiresAt"
  shows "cache_Get s key = Some v"
  using assms by (simp add: cache_Get_def)

lemma cache_miss_persists:
  assumes "cache_Get s key = None"
    and "vBoxResponseCache s' = vBoxResponseCache s"
    and "clock s \<le> clock s'"
  shows "cache_Get s' key = None"
  using assms by (auto simp add: cache_Get_def split: option.splits if_splits)

lemma propRegexp_empty: "propRegexp_at [] = []"
  by (simp add: propRegexp_at_def)

lemma slices_of_empty:
  "length (slices [] m) > 1 \<Longrightarrow> slices [] m ! 1 = []"
proof -
  assume l: "length (slices [] m) > 1"
  have "\<forall>x\<in>set (slices [] m). x = []"
    by (auto simp add: slices_def split: option.splits)
  then show ?thesis using l nth_mem by blast
qed

lemma runCommand_clears_flag: "vBoxManageStarted (snd (runCommand env args lo s)) = 0"
  by (simp add: runCommand_def Let_def split: prod.splits)

lemma getVMState_hit:
  assumes "cache_Get s ''vmstate'' = Some v"
  shows "getVMState env vmName s = ((v, None), s)"
  using assms by (simp add: getVMState_def)

lemma getVMState_writes:
  "vBoxResponseCache (snd (getVMState env vmName s)) = vBoxResponseCache s
   \<or> (\<exists>vmState. vmState \<noteq> []
         \<and> cache_Get s ''vmstate'' = None
         \<and> vmState = getVMStateFromOutput
               (fst (fst (RunCommandWithoutLogging env
                            [''showvminfo'', ''--machinereadable'', vmName] s)))
         \<and> fst (getVMState env vmName s) = (vmState, None)
         \<and> vBoxResponseCache (snd (getVMState env vmName s))
             = (vBoxResponseCache s)
                 (''vmstate'' \<mapsto> (vmState, clock (snd (getVMState env vmName s))
                                             + VBoxRunningCacheTimeout env)))"
proof (cases "cache_Get s ''vmstate''")
  case (Some v)
  then show ?thesis by (simp add: getVMState_hit)
next
  case None
  let ?args = "[''showvminfo'', ''--machinereadable'', vmName]"
  obtain rawVMInfo err s1 where run:
    "RunCommandWithoutLogging env ?args s = ((rawVMInfo, err), s1)"
    by (metis surj_pair)
  have c1: "vBoxResponseCache s1 = vBoxResponseCache s"
    using runCommand_effects [of env ?args False s] run
    by (simp add: RunCommandWithoutLogging_def)
  show ?thesis
  proof (cases "strings_Contains rawVMInfo vBoxManageOutputNoVMInstalled")
    case True
    then show ?thesis by (simp add: getVMState_def None run c1 Let_def)
  next
    case False
    show ?thesis
    proof (cases err)
      case (Some e)
      then show ?thesis using False by (simp add: getVMState_def None run c1 Let_def)
    next
      case noerr: None
      show ?thesis
      proof (cases "getVMStateFromOutput rawVMInfo = []")
        case True
        then show ?thesis using False noerr by (simp add: getVMState_def None run c1 Let_def)
      next
        case extracted: False
        then show ?thesis using False noerr
          by (simp add: getVMState_def None run c1 cache_Set_def Let_def)
      qed
    qed
  qed
qed

lemma getVMState_not_installed:
  assumes miss: "cache_Get s ''vmstate'' = None"
    and run: "fst (RunCommandWithoutLogging env [''showvminfo'', ''--machinereadable'', vmName] s)
                = (rawVMInfo, err)"
    and absent: "strings_Contains rawVMInfo vBoxManageOutputNoVMInstalled"
  shows "fst (getVMState env vmName s) = ([], None)"
    and "vBoxResponseCache (snd (getVMState env vmName s)) = vBoxResponseCache s"
    and "clock s \<le> clock (snd (getVMState env vmName s))"
    and "\<exists>more. invocations (trace (snd (getVMState env vmName s)))
           = invocations (trace s)
             @ (getVBoxManagePath env # [''showvminfo'', ''--machinereadable'', vmName]) # more"
    and "vBoxManageStarted (snd (getVMState env vmName s)) = 0"
proof -
  let ?args = "[''showvminfo'', ''--machinereadable'', vmName]"
  obtain s1 where r: "RunCommandWithoutLogging env ?args s = ((rawVMInfo, err), s1)"
    using run by (metis fst_conv surj_pair)
  have e: "vBoxResponseCache s1 = vBoxResponseCache s" "clock s \<le> clock s1"
    "invocations (trace s1) = invocations (trace s) @ [getVBoxManagePath env # ?args]
     \<or> invocations (trace s1)
         = invocations (trace s) @ [getVBoxManagePath env # ?args, getVBoxManagePath env # ?args]"
    using runCommand_effects [of env ?args False s] r
    by (simp_all add: RunCommandWithoutLogging_def)
  have g: "getVMState env vmName s
           = (([], None), log_Debug ''When trying to get VM state, VM is not installed'' s1)"
    by (simp add: getVMState_def miss r absent)
  show "fst (getVMState env vmName s) = ([], None)"
    by (simp add: g)
  show "vBoxResponseCache (snd (getVMState env vmName s)) = vBoxResponseCache s"
    by (simp add: g e)
  show "clock s \<le> clock (snd (getVMState env vmName s))"
    by (simp add: g e)
  show "\<exists>more. invocations (trace (snd (getVMState env vmName s)))
           = invocations (trace s) @ (getVBoxManagePath env # ?args) # more"
    using e(3) by (auto simp add: g trace_log_Debug invocations_append)
  have "vBoxManageStarted s1 = 0"
    using runCommand_clears_flag [of env ?args False s] r
    by (simp add: RunCommandWithoutLogging_def)
  then show "vBoxManageStarted (snd (getVMState env vmName s)) = 0"
    by (simp add: g)
qed

lemma sample_runCommand_failed_idle:
  assumes "vBoxManageStarted s = 0"
  shows "fst (runCommand (sample_env (answers (out, Some e)) (False, None)) args lo s)
         = (out, Some e)"
  using assms
  by (intro runCommand_not_fixed) (simp_all add: sample_env_def answers_def)

subsection \<open>A remediation that fails\<close>

text \<open>
  Claim C2, as stated, fails. The first invocation fails with \<open>exit status 1\<close> and the
  remediation returns \<open>(false, cannot parse disk path)\<close>: \<open>runVBoxManage\<close> returns
  a new error made of the command line and the error of the invocation, not the error of the
  remediation.
\<close>

theorem runVBoxManage_remediation_error_counterexample:
  "fst (mebroutines_RunAndGetOutput
          (sample_env fails_until_fixed (False, Some (errorString ''cannot parse disk path'')))
          [''VBoxManage'', ''startvm''] True idle_state)
     = (''UUID already exists'', Some (ExternalError ''exit status 1''))
   \<and> fst (detectAndFixDuplicateHardDiskProblem
          (sample_env fails_until_fixed (False, Some (errorString ''cannot parse disk path'')))
          ''UUID already exists'' idle_state)
     = (False, Some (errorString ''cannot parse disk path''))
   \<and> snd (fst (runVBoxManage
          (sample_env fails_until_fixed (False, Some (errorString ''cannot parse disk path'')))
          [''startvm''] True idle_state))
     = Some (errorString ''failed to execute VBoxManage startvm: exit status 1'')
   \<and> snd (fst (runVBoxManage
          (sample_env fails_until_fixed (False, Some (errorString ''cannot parse disk path'')))
          [''startvm''] True idle_state))
     \<noteq> Some (errorString ''cannot parse disk path'')"
  by (simp add: runVBoxManage_def Let_def mebroutines_RunAndGetOutput_def
      detectAndFixDuplicateHardDiskProblem_def sample_env_def fails_until_fixed_def idle_state_def)

text \<open>
  Claim C2, amended. When the first invocation fails with error \<open>e1\<close> and the remediation
  returns \<open>fixed = false\<close> with an error \<open>fixErr\<close>, \<open>runVBoxManage\<close> returns the empty
  output and a new error whose text is \<open>failed to execute <command line>: <text of e1>\<close>;
  the error of the remediation is written to the debug log only.
\<close>

theorem runVBoxManage_remediation_failure:
  assumes first: "mebroutines_RunAndGetOutput env (getVBoxManagePath env # args) logOutput s
                    = ((output1, Some e1), s1)"
    and rem: "detectAndFixDuplicateHardDiskProblem env output1
                (logError (strings_Join (getVBoxManagePath env # args) '' '') output1 e1 s1)
                = ((False, Some fixErr), s3)"
  shows "runVBoxManage env args logOutput s
         = (([], Some (errorString (''failed to execute ''
                                      @ strings_Join (getVBoxManagePath env # args) '' ''
                                      @ '': '' @ Error_msg e1))),
            log_Debug (''Failed to fix duplicate hard disk problem with command ''
                         @ strings_Join (getVBoxManagePath env # args) '' ''
                         @ '': ('' @ Error_msg fixErr @ '')'') s3)"
  using first rem by (simp add: runVBoxManage_def Let_def)

theorem runVBoxManage_remediation_failure_witness:
  "runVBoxManage (sample_env fails_until_fixed (False, Some (errorString ''cannot parse disk path'')))
     [''startvm''] True idle_state
   = (([], Some (errorString ''failed to execute VBoxManage startvm: exit status 1'')),
      log_Debug ''Failed to fix duplicate hard disk problem with command VBoxManage startvm: (cannot parse disk path)''
        (elapse 300 (emit (DetectAndFix ''UUID already exists'')
           (logError ''VBoxManage startvm'' ''UUID already exists'' (ExternalError ''exit status 1'')
              (elapse 100 (emit (Exec [''VBoxManage'', ''startvm''] True) idle_state))))))"
proof -
  let ?env = "sample_env fails_until_fixed (False, Some (errorString ''cannot parse disk path''))"
  let ?s1 = "elapse 100 (emit (Exec [''VBoxManage'', ''startvm''] True) idle_state)"
  let ?s2 = "logError (strings_Join (getVBoxManagePath ?env # [''startvm'']) '' '')
               ''UUID already exists'' (ExternalError ''exit status 1'') ?s1"
  let ?s3 = "elapse 300 (emit (DetectAndFix ''UUID already exists'') ?s2)"
  have p: "getVBoxManagePath ?env = ''VBoxManage''"
    by (simp add: sample_env_def)
  have h1: "mebroutines_RunAndGetOutput ?env (getVBoxManagePath ?env # [''startvm'']) True
              idle_state
            = ((''UUID already exists'', Some (ExternalError ''exit status 1'')), ?s1)"
    by (simp add: mebroutines_RunAndGetOutput_def sample_env_def fails_until_fixed_def
        idle_state_def)
  have h2: "detectAndFixDuplicateHardDiskProblem ?env ''UUID already exists'' ?s2
            = ((False, Some (errorString ''cannot parse disk path'')), ?s3)"
    by (simp add: detectAndFixDuplicateHardDiskProblem_def sample_env_def)
  show ?thesis
    using runVBoxManage_remediation_failure [OF h1 h2] p by simp
qed

subsection \<open>The state of the VM on a cache miss\<close>

text \<open>
  Claim C4. On a cache miss, \<open>getVMState\<close> returns the empty string and a nil error when
  the output of showvminfo contains \<open>Could not find a registered machine named\<close>;
  otherwise, when \<open>getVMStateFromOutput\<close> extracts nothing from the output, it returns a
  non-nil error.
\<close>

theorem getVMState_miss:
  assumes miss: "cache_Get s ''vmstate'' = None"
    and run: "fst (RunCommandWithoutLogging env [''showvminfo'', ''--machinereadable'', vmName] s)
                = (rawVMInfo, err)"
  shows "((\<exists>pre post. rawVMInfo = pre @ ''Could not find a registered machine named'' @ post)
            \<longrightarrow> fst (getVMState env vmName s) = ([], None))
       \<and> (\<not> (\<exists>pre post. rawVMInfo = pre @ ''Could not find a registered machine named'' @ post)
            \<and> getVMStateFromOutput rawVMInfo = []
            \<longrightarrow> (\<exists>e. fst (getVMState env vmName s) = ([], Some e)))"
proof -
  obtain s1 where r: "RunCommandWithoutLogging env [''showvminfo'', ''--machinereadable'', vmName] s
      = ((rawVMInfo, err), s1)"
    using run by (metis fst_conv surj_pair)
  have c: "strings_Contains rawVMInfo vBoxManageOutputNoVMInstalled
           \<longleftrightarrow> (\<exists>pre post. rawVMInfo = pre @ ''Could not find a registered machine named'' @ post)"
    by (simp only: strings_Contains_iff vBoxManageOutputNoVMInstalled_def)
  show ?thesis
    unfolding c [symmetric]
    by (cases err) (simp_all add: getVMState_def miss r)
qed

theorem getVMState_miss_witness:
  "fst (getVMState (sample_env (answers (''error: Could not find a registered machine named exam'',
                                        Some (ExternalError ''exit status 1''))) (False, None))
          ''exam'' idle_state) = ([], None)
   \<and> (\<exists>e. fst (getVMState (sample_env (answers (''name=exam'', None)) (False, None))
                 ''exam'' idle_state) = ([], Some e))"
proof -
  let ?a = "sample_env (answers (''error: Could not find a registered machine named exam'',
                                        Some (ExternalError ''exit status 1''))) (False, None)"
  let ?b = "sample_env (answers (''name=exam'', None)) (False, None)"
  have ra: "fst (RunCommandWithoutLogging ?a [''showvminfo'', ''--machinereadable'', ''exam''] idle_state)
      = (''error: Could not find a registered machine named exam'', Some (ExternalError ''exit status 1''))"
    by (simp only: RunCommandWithoutLogging_def sample_runCommand_failed)
  have rb: "fst (RunCommandWithoutLogging ?b [''showvminfo'', ''--machinereadable'', ''exam''] idle_state)
      = (''name=exam'', None)"
    by (simp only: RunCommandWithoutLogging_def sample_runCommand_ok)
  have nb: "\<not> (\<exists>pre post. ''name=exam'' = pre @ ''Could not find a registered machine named'' @ post)"
    by (simp add: strings_Contains_iff [symmetric])
  have vb: "getVMStateFromOutput ''name=exam'' = []"
    by (simp add: getVMStateFromOutput_def vmStateRegexp_at_def VMState_prefix_def)
  show ?thesis
    using getVMState_miss [OF idle_cache ra] getVMState_miss [OF idle_cache rb]
      contains_not_registered nb vb
    by blast
qed

subsection \<open>Whether the VM is installed\<close>

text \<open>
  Claim C5, as stated, fails. The invocation succeeds and its output contains
  \<open>Could not find a registered machine named\<close>: \<open>IsVMInstalled\<close> returns \<open>(true, nil)\<close>,
  because it looks for the substring only after a failed invocation.
\<close>

theorem IsVMInstalled_success_counterexample:
  "fst (RunCommandWithoutLogging
          (sample_env (answers (''description=Could not find a registered machine named'', None))
             (False, None))
          [''showvminfo'', ''--machinereadable'', ''exam''] idle_state)
     = (''description=Could not find a registered machine named'', None)
   \<and> strings_Contains ''description=Could not find a registered machine named''
         vBoxManageOutputNoVMInstalled
   \<and> fst (IsVMInstalled
          (sample_env (answers (''description=Could not find a registered machine named'', None))
             (False, None)) ''exam'' idle_state)
     = (True, None)
   \<and> fst (IsVMInstalled
          (sample_env (answers (''description=Could not find a registered machine named'', None))
             (False, None)) ''exam'' idle_state)
     \<noteq> (False, None)"
proof -
  let ?c = "sample_env (answers (''description=Could not find a registered machine named'', None))
             (False, None)"
  have r: "fst (RunCommandWithoutLogging ?c [''showvminfo'', ''--machinereadable'', ''exam''] idle_state)
     = (''description=Could not find a registered machine named'', None)"
    by (simp only: RunCommandWithoutLogging_def sample_runCommand_ok)
  have c: "strings_Contains ''description=Could not find a registered machine named''
         vBoxManageOutputNoVMInstalled"
    by (simp add: vBoxManageOutputNoVMInstalled_def)
  have i: "fst (IsVMInstalled ?c ''exam'' idle_state) = (True, None)"
    using r by (auto simp add: IsVMInstalled_def split: prod.splits)
  show ?thesis using r c i by simp
qed

text \<open>
  Claim C5, amended. \<open>IsVMInstalled\<close> returns \<open>(false, nil)\<close> when the invocation fails and
  its output contains \<open>Could not find a registered machine named\<close>; \<open>(true, nil)\<close> when
  the invocation succeeds, whatever the output; and \<open>false\<close> with the error of the
  invocation as it is when the invocation fails without that substring.
\<close>

theorem IsVMInstalled_cases:
  assumes run: "fst (RunCommandWithoutLogging env [''showvminfo'', ''--machinereadable'', vmName] s)
                = (rawVMInfo, err)"
  shows "(err \<noteq> None
            \<and> (\<exists>pre post. rawVMInfo = pre @ ''Could not find a registered machine named'' @ post)
            \<longrightarrow> fst (IsVMInstalled env vmName s) = (False, None))
       \<and> (err = None \<longrightarrow> fst (IsVMInstalled env vmName s) = (True, None))
       \<and> (err \<noteq> None
            \<and> \<not> (\<exists>pre post. rawVMInfo = pre @ ''Could not find a registered machine named'' @ post)
            \<longrightarrow> fst (IsVMInstalled env vmName s) = (False, err))"
proof -
  obtain s1 where r: "RunCommandWithoutLogging env [''showvminfo'', ''--machinereadable'', vmName] s
      = ((rawVMInfo, err), s1)"
    using run by (metis fst_conv surj_pair)
  have c: "strings_Contains rawVMInfo vBoxManageOutputNoVMInstalled
           \<longleftrightarrow> (\<exists>pre post. rawVMInfo = pre @ ''Could not find a registered machine named'' @ post)"
    by (simp only: strings_Contains_iff vBoxManageOutputNoVMInstalled_def)
  show ?thesis
    unfolding c [symmetric]
    by (cases err) (simp_all add: IsVMInstalled_def r)
qed

theorem IsVMInstalled_cases_witness:
  "fst (IsVMInstalled (sample_env (answers (''error: Could not find a registered machine named exam'',
                                        Some (ExternalError ''exit status 1''))) (False, None))
          ''exam'' idle_state) = (False, None)
   \<and> fst (IsVMInstalled (sample_env (answers (''name=exam'', None)) (False, None))
          ''exam'' idle_state) = (True, None)
   \<and> fst (IsVMInstalled (sample_env (answers (''error: access denied'',
                                        Some (ExternalError ''exit status 1''))) (False, None))
          ''exam'' idle_state) = (False, Some (ExternalError ''exit status 1''))"
proof -
  let ?a = "sample_env (answers (''error: Could not find a registered machine named exam'',
                                        Some (ExternalError ''exit status 1''))) (False, None)"
  let ?b = "sample_env (answers (''name=exam'', None)) (False, None)"
  let ?c = "sample_env (answers (''error: access denied'',
                                        Some (ExternalError ''exit status 1''))) (False, None)"
  have ra: "fst (RunCommandWithoutLogging ?a [''showvminfo'', ''--machinereadable'', ''exam''] idle_state)
      = (''error: Could not find a registered machine named exam'', Some (ExternalError ''exit status 1''))"
    by (simp only: RunCommandWithoutLogging_def sample_runCommand_failed)
  have rb: "fst (RunCommandWithoutLogging ?b [''showvminfo'', ''--machinereadable'', ''exam''] idle_state)
      = (''name=exam'', None)"
    by (simp only: RunCommandWithoutLogging_def sample_runCommand_ok)
  have rc: "fst (RunCommandWithoutLogging ?c [''showvminfo'', ''--machinereadable'', ''exam''] idle_state)
      = (''error: access denied'', Some (ExternalError ''exit status 1''))"
    by (simp only: RunCommandWithoutLogging_def sample_runCommand_failed)
  have nc: "\<not> (\<exists>pre post. ''error: access denied'' = pre @ ''Could not find a registered machine named'' @ post)"
    by (simp add: strings_Contains_iff [symmetric])
  show ?thesis
    using IsVMInstalled_cases [OF ra] IsVMInstalled_cases [OF rb] IsVMInstalled_cases [OF rc]
      contains_not_registered nc
    by simp
qed

subsection \<open>Reading a guest property\<close>

text \<open>
  Claim C3, as stated, fails. The cache misses and the invocation succeeds with the output
  \<open>Value: exam-mode\<close>: \<open>GetVMProperty\<close> returns \<open>exam\<close>, because the group \<open>(\w+)\<close>
  of its pattern stops at the hyphen.
\<close>

theorem GetVMProperty_exam_mode_counterexample:
  "cache_Get idle_state ''mode'' = None
   \<and> fst (RunCommand (sample_env (answers (''Value: exam-mode'', None)) (False, None))
           [''guestproperty'', ''get'', ''exam'', ''mode''] idle_state)
       = (''Value: exam-mode'', None)
   \<and> fst (GetVMProperty (sample_env (answers (''Value: exam-mode'', None)) (False, None))
           ''exam'' ''mode'' idle_state) = ''exam''
   \<and> fst (GetVMProperty (sample_env (answers (''Value: exam-mode'', None)) (False, None))
           ''exam'' ''mode'' idle_state) \<noteq> ''exam-mode''"
proof -
  let ?env = "sample_env (answers (''Value: exam-mode'', None)) (False, None)"
  have r: "fst (RunCommand ?env [''guestproperty'', ''get'', ''exam'', ''mode''] idle_state)
       = (''Value: exam-mode'', None)"
    by (simp only: RunCommand_def sample_runCommand_ok)
  have m: "find_leftmost propRegexp_at ''Value: exam-mode'' = [''Value: exam'', ''exam'']"
    using propRegexp_exam_mode [of "[]"] by simp
  have g: "fst (GetVMProperty ?env ''exam'' ''mode'' idle_state) = ''exam''"
    unfolding GetVMProperty_miss_value [OF idle_cache r] m by simp
  show ?thesis using r g idle_cache by simp
qed

text \<open>
  Claim C3, amended. For every VM name and property name, when the cache misses, the
  invocation succeeds and the first \<open>Value:\<close> of its output is the one of the text
  \<open>Value: exam-mode\<close>, \<open>GetVMProperty\<close> returns \<open>exam\<close>, and \<open>GetBoxProperty\<close> of the
  older copy returns \<open>exam-mode\<close> followed by the rest of that line.
\<close>

theorem GetVMProperty_exam_mode:
  assumes miss: "cache_Get s property = None"
    and first: "\<not> (\<exists>p q. pre @ ''Value'' = p @ ''Value:'' @ q)"
  shows "(fst (RunCommand env [''guestproperty'', ''get'', vmName, property] s)
            = (pre @ ''Value: exam-mode'' @ post, None)
          \<longrightarrow> fst (GetVMProperty env vmName property s) = ''exam'')
       \<and> (fst (CallRunVBoxManage env [''guestproperty'', ''get'', vmName, property] s)
            = (pre @ ''Value: exam-mode'' @ post, None)
          \<longrightarrow> fst (GetBoxProperty env vmName property s)
                = ''exam-mode'' @ takeWhile not_newline post)"
proof (intro conjI impI)
  assume "fst (RunCommand env [''guestproperty'', ''get'', vmName, property] s)
            = (pre @ ''Value: exam-mode'' @ post, None)"
  then have "fst (GetVMProperty env vmName property s)
         = (if find_leftmost propRegexp_at (pre @ ''Value: exam-mode'' @ post) \<noteq> []
            then find_leftmost propRegexp_at (pre @ ''Value: exam-mode'' @ post) ! 1 else [])"
    by (rule GetVMProperty_miss_value [OF miss])
  then show "fst (GetVMProperty env vmName property s) = ''exam''"
    unfolding value_first(1) [OF first] by simp
next
  assume "fst (CallRunVBoxManage env [''guestproperty'', ''get'', vmName, property] s)
            = (pre @ ''Value: exam-mode'' @ post, None)"
  then have "fst (GetBoxProperty env vmName property s)
         = (if length (find_leftmost propRegexp_old_at (pre @ ''Value: exam-mode'' @ post)) = 2
            then find_leftmost propRegexp_old_at (pre @ ''Value: exam-mode'' @ post) ! 1 else [])"
    by (rule GetBoxProperty_miss_value [OF miss])
  then show "fst (GetBoxProperty env vmName property s) = ''exam-mode'' @ takeWhile not_newline post"
    unfolding value_first(2) [OF first] by simp
qed

theorem GetVMProperty_exam_mode_witness:
  "fst (GetVMProperty (sample_env (answers (''Name: mode, Value: exam-mode, flags:'', None)) (False, None))
          ''exam'' ''mode'' idle_state) = ''exam''
   \<and> fst (GetBoxProperty (sample_env (answers (''Name: mode, Value: exam-mode, flags:'', None)) (False, None))
          ''exam'' ''mode'' idle_state) = ''exam-mode, flags:''"
proof -
  let ?env = "sample_env (answers (''Name: mode, Value: exam-mode, flags:'', None)) (False, None)"
  have e: "''Name: mode, Value: exam-mode, flags:''
           = ''Name: mode, '' @ ''Value: exam-mode'' @ '', flags:''"
    by simp
  have "\<not> strings_Contains (''Name: mode, '' @ ''Value'') ''Value:''"
    by simp
  then have f: "\<not> (\<exists>p q. ''Name: mode, '' @ ''Value'' = p @ ''Value:'' @ q)"
    unfolding strings_Contains_iff .
  have r: "fst (RunCommand ?env [''guestproperty'', ''get'', ''exam'', ''mode''] idle_state)
       = (''Name: mode, '' @ ''Value: exam-mode'' @ '', flags:'', None)"
    by (simp only: RunCommand_def sample_runCommand_ok e)
  have c: "fst (CallRunVBoxManage ?env [''guestproperty'', ''get'', ''exam'', ''mode''] idle_state)
       = (''Name: mode, '' @ ''Value: exam-mode'' @ '', flags:'', None)"
    by (simp only: sample_CallRunVBoxManage e)
  have t: "takeWhile not_newline '', flags:'' = '', flags:''"
    by (simp add: not_newline_def)
  show ?thesis
    using GetVMProperty_exam_mode [OF idle_cache f, of ?env "''exam''" "''mode''" "'', flags:''"] r c t
    by simp
qed

subsection \<open>The version of VBoxManage\<close>

text \<open>
  Claim C6. On a cache miss with a successful \<open>--version\<close> invocation,
  \<open>GetVBoxManageVersion\<close> parses the output \<open>6.1.26\<close>, newline, \<open>Oracle VM VirtualBox...\<close>
  to the version 6.1.26; it returns a non-nil error when the output does not begin with
  digits, a dot, digits, a dot and digits; and when the output begins with such a triple
  (taken with all the digits of its last number), it returns what \<open>semver.Make\<close> makes of
  the triple when that succeeds, and a non-nil error when that fails.
\<close>

theorem GetVBoxManageVersion_miss:
  assumes miss: "cache_Get s ''vboxmanageversion'' = None"
    and run: "fst (RunCommand env [''--version''] s) = (output, None)"
  shows "(output = ''6.1.26\<newline>Oracle VM VirtualBox...''
            \<longrightarrow> fst (GetVBoxManageVersion env s)
                  = (\<lparr>Major = 6, Minor = 1, Patch = 26, Pre = [], Build = []\<rparr>, None))
       \<and> (\<not> (\<exists>a b c r. output = a @ ''.'' @ b @ ''.'' @ c @ r
                  \<and> a \<noteq> [] \<and> b \<noteq> [] \<and> c \<noteq> [] \<and> list_all is_digit (a @ b @ c))
            \<longrightarrow> (\<exists>e. fst (GetVBoxManageVersion env s) = (Version_zero, Some e)))
       \<and> (\<forall>a b c r. output = a @ ''.'' @ b @ ''.'' @ c @ r
                  \<and> a \<noteq> [] \<and> b \<noteq> [] \<and> c \<noteq> [] \<and> list_all is_digit (a @ b @ c)
                  \<and> (r = [] \<or> \<not> is_digit (hd r))
            \<longrightarrow> (case semver_Make (a @ ''.'' @ b @ ''.'' @ c) of
                   (v, None) \<Rightarrow> fst (GetVBoxManageVersion env s) = (v, None)
                 | (v, Some errSemVer) \<Rightarrow>
                     (\<exists>e. fst (GetVBoxManageVersion env s) = (Version_zero, Some e))))"
proof (intro conjI impI allI)
  note res = GetVBoxManageVersion_miss_value [OF miss run]
  {
    assume "output = ''6.1.26\<newline>Oracle VM VirtualBox...''"
    then have "versionRegexp_FindStringSubmatch output = [''6.1.26'', ''6.1.26'']"
      by (simp add: versionRegexp_FindStringSubmatch_def is_digit_def Let_def)
    then show "fst (GetVBoxManageVersion env s)
                  = (\<lparr>Major = 6, Minor = 1, Patch = 26, Pre = [], Build = []\<rparr>, None)"
      unfolding res by (simp add: semver_Make_6_1_26)
  }
  {
    assume "\<not> (\<exists>a b c r. output = a @ ''.'' @ b @ ''.'' @ c @ r
                  \<and> a \<noteq> [] \<and> b \<noteq> [] \<and> c \<noteq> [] \<and> list_all is_digit (a @ b @ c))"
    then have "versionRegexp_FindStringSubmatch output = []"
      using versionRegexp_matches_iff [of "output"] by blast
    then show "\<exists>e. fst (GetVBoxManageVersion env s) = (Version_zero, Some e)"
      unfolding res by simp
  }
  {
    fix a b c r
    assume h: "output = a @ ''.'' @ b @ ''.'' @ c @ r
                  \<and> a \<noteq> [] \<and> b \<noteq> [] \<and> c \<noteq> [] \<and> list_all is_digit (a @ b @ c)
                  \<and> (r = [] \<or> \<not> is_digit (hd r))"
    then have "versionRegexp_FindStringSubmatch (a @ ''.'' @ b @ ''.'' @ c @ r)
         = [a @ ''.'' @ b @ ''.'' @ c, a @ ''.'' @ b @ ''.'' @ c]"
      by (intro versionRegexp_match) simp_all
    with h have m: "versionRegexp_FindStringSubmatch output
         = [a @ ''.'' @ b @ ''.'' @ c, a @ ''.'' @ b @ ''.'' @ c]"
      by simp
    show "case semver_Make (a @ ''.'' @ b @ ''.'' @ c) of
                   (v, None) \<Rightarrow> fst (GetVBoxManageVersion env s) = (v, None)
                 | (v, Some errSemVer) \<Rightarrow>
                     (\<exists>e. fst (GetVBoxManageVersion env s) = (Version_zero, Some e))"
      unfolding res m by (simp split: prod.splits option.splits)
  }
qed

theorem GetVBoxManageVersion_miss_witness:
  "fst (GetVBoxManageVersion
          (sample_env (answers (''6.1.26\<newline>Oracle VM VirtualBox...'', None)) (False, None))
          idle_state)
     = (\<lparr>Major = 6, Minor = 1, Patch = 26, Pre = [], Build = []\<rparr>, None)
   \<and> (\<exists>e. fst (GetVBoxManageVersion
                 (sample_env (answers (''Oracle VM VirtualBox'', None)) (False, None)) idle_state)
            = (Version_zero, Some e))
   \<and> (\<exists>e. fst (GetVBoxManageVersion
                 (sample_env (answers (''6.01.26'', None)) (False, None)) idle_state)
            = (Version_zero, Some e))"
proof -
  let ?e1 = "sample_env (answers (''6.1.26\<newline>Oracle VM VirtualBox...'', None)) (False, None)"
  let ?e2 = "sample_env (answers (''Oracle VM VirtualBox'', None)) (False, None)"
  let ?e3 = "sample_env (answers (''6.01.26'', None)) (False, None)"
  have r1: "fst (RunCommand ?e1 [''--version''] idle_state)
            = (''6.1.26\<newline>Oracle VM VirtualBox...'', None)"
    by (simp only: RunCommand_def sample_runCommand_ok)
  have r2: "fst (RunCommand ?e2 [''--version''] idle_state) = (''Oracle VM VirtualBox'', None)"
    by (simp only: RunCommand_def sample_runCommand_ok)
  have r3: "fst (RunCommand ?e3 [''--version''] idle_state) = (''6.01.26'', None)"
    by (simp only: RunCommand_def sample_runCommand_ok)
  have "versionRegexp_FindStringSubmatch ''Oracle VM VirtualBox'' = []"
    by (simp add: versionRegexp_FindStringSubmatch_def is_digit_def)
  then have n2: "\<not> (\<exists>a b c r. ''Oracle VM VirtualBox'' = a @ ''.'' @ b @ ''.'' @ c @ r
                  \<and> a \<noteq> [] \<and> b \<noteq> [] \<and> c \<noteq> [] \<and> list_all is_digit (a @ b @ c))"
    using versionRegexp_matches_iff [of "''Oracle VM VirtualBox''"] by blast
  have d3: "''6.01.26'' = ''6'' @ ''.'' @ ''01'' @ ''.'' @ ''26'' @ []
              \<and> ''6'' \<noteq> [] \<and> ''01'' \<noteq> [] \<and> ''26'' \<noteq> [] \<and> list_all is_digit (''6'' @ ''01'' @ ''26'')
              \<and> ([] = [] \<or> \<not> is_digit (hd []))"
    by (simp add: is_digit_def)
  have s3: "\<exists>v e. semver_Make (''6'' @ ''.'' @ ''01'' @ ''.'' @ ''26'') = (v, Some e)"
    using semver_Make_leading_zero by (cases "semver_Make ''6.01.26''") auto
  have a: "fst (GetVBoxManageVersion ?e1 idle_state)
     = (\<lparr>Major = 6, Minor = 1, Patch = 26, Pre = [], Build = []\<rparr>, None)"
    using GetVBoxManageVersion_miss [OF idle_cache r1, THEN conjunct1] by simp
  have b: "\<exists>e. fst (GetVBoxManageVersion ?e2 idle_state) = (Version_zero, Some e)"
    using GetVBoxManageVersion_miss [OF idle_cache r2, THEN conjunct2, THEN conjunct1] n2
    by (rule mp)
  have c: "\<exists>e. fst (GetVBoxManageVersion ?e3 idle_state) = (Version_zero, Some e)"
    using GetVBoxManageVersion_miss [OF idle_cache r3, THEN conjunct2, THEN conjunct2,
        rule_format, OF d3] s3
    by auto
  show ?thesis using a b c by blast
qed

subsection \<open>A guest property that could not be read\<close>

text \<open>
  Claim C7. For every VM name and property name, when the cache misses and the
  guestproperty invocation fails, \<open>GetVMProperty\<close> returns the empty string (its only
  result: it has no error result), and stores the empty string under the property name
  with the expiry \<open>VBoxManageCacheTimeout\<close> after the end of the invocation. In every later
  state that still holds this entry and whose clock is before the expiry, \<open>GetVMProperty\<close>
  for that property returns the empty string and invokes nothing.
\<close>

theorem GetVMProperty_failure_cached:
  assumes miss: "cache_Get s property = None"
    and run: "RunCommand env [''guestproperty'', ''get'', vmName, property] s
                = ((output, Some e), s1)"
  shows "fst (GetVMProperty env vmName property s) = []
       \<and> vBoxResponseCache (snd (GetVMProperty env vmName property s))
           = (vBoxResponseCache s)(property \<mapsto> ([], clock s1 + VBoxManageCacheTimeout env))
       \<and> clock (snd (GetVMProperty env vmName property s)) = clock s1
       \<and> (\<forall>s' vmName'.
             vBoxResponseCache s' property = Some ([], clock s1 + VBoxManageCacheTimeout env)
             \<and> clock s' < clock s1 + VBoxManageCacheTimeout env
             \<longrightarrow> fst (GetVMProperty env vmName' property s') = []
                 \<and> invocations (trace (snd (GetVMProperty env vmName' property s')))
                     = invocations (trace s'))"
proof -
  have c1: "vBoxResponseCache s1 = vBoxResponseCache s"
    using runCommand_effects [of env "[''guestproperty'', ''get'', vmName, property]" True s] run
    by (simp add: RunCommand_def)
  have first: "fst (GetVMProperty env vmName property s) = []"
    "vBoxResponseCache (snd (GetVMProperty env vmName property s))
           = (vBoxResponseCache s)(property \<mapsto> ([], clock s1 + VBoxManageCacheTimeout env))"
    "clock (snd (GetVMProperty env vmName property s)) = clock s1"
    by (simp_all add: GetVMProperty_def miss run cache_Set_def Let_def propRegexp_empty c1)
  have later: "fst (GetVMProperty env vmName' property s') = []
                 \<and> invocations (trace (snd (GetVMProperty env vmName' property s')))
                     = invocations (trace s')"
    if "vBoxResponseCache s' property = Some ([], clock s1 + VBoxManageCacheTimeout env)"
      and "clock s' < clock s1 + VBoxManageCacheTimeout env" for s' vmName'
  proof -
    have "cache_Get s' property = Some []"
      using that by (rule cache_hit)
    then show ?thesis
      by (simp add: GetVMProperty_def trace_log_Debug invocations_append)
  qed
  show ?thesis using first later by blast
qed

theorem GetVMProperty_failure_cached_witness:
  "fst (GetVMProperty (sample_env (answers (''error: no such property'',
                                          Some (ExternalError ''exit status 1''))) (False, None))
          ''exam'' ''mode'' idle_state) = []
   \<and> fst (GetVMProperty (sample_env (answers (''error: no such property'',
                                          Some (ExternalError ''exit status 1''))) (False, None))
          ''exam'' ''mode''
          (snd (GetVMProperty (sample_env (answers (''error: no such property'',
                                          Some (ExternalError ''exit status 1''))) (False, None))
                  ''exam'' ''mode'' idle_state))) = []
   \<and> invocations (trace (snd (GetVMProperty (sample_env (answers (''error: no such property'',
                                          Some (ExternalError ''exit status 1''))) (False, None))
          ''exam'' ''mode''
          (snd (GetVMProperty (sample_env (answers (''error: no such property'',
                                          Some (ExternalError ''exit status 1''))) (False, None))
                  ''exam'' ''mode'' idle_state)))))
     = invocations (trace (snd (GetVMProperty (sample_env (answers (''error: no such property'',
                                          Some (ExternalError ''exit status 1''))) (False, None))
                  ''exam'' ''mode'' idle_state)))"
proof -
  let ?E = "sample_env (answers (''error: no such property'',
                                 Some (ExternalError ''exit status 1''))) (False, None)"
  let ?args = "[''guestproperty'', ''get'', ''exam'', ''mode'']"
  let ?s1 = "snd (RunCommand ?E ?args idle_state)"
  let ?s2 = "snd (GetVMProperty ?E ''exam'' ''mode'' idle_state)"
  have "fst (RunCommand ?E ?args idle_state)
        = (''error: no such property'', Some (ExternalError ''exit status 1''))"
    by (simp only: RunCommand_def sample_runCommand_failed)
  then have run: "RunCommand ?E ?args idle_state
        = ((''error: no such property'', Some (ExternalError ''exit status 1'')), ?s1)"
    by (metis prod.collapse)
  note t = GetVMProperty_failure_cached [OF idle_cache run]
  have ttl: "VBoxManageCacheTimeout ?E = 30000"
    by (simp add: sample_env_def)
  have entry: "vBoxResponseCache ?s2 ''mode'' = Some ([], clock ?s1 + VBoxManageCacheTimeout ?E)"
    using t by simp
  have fresh: "clock ?s2 < clock ?s1 + VBoxManageCacheTimeout ?E"
    using t ttl by simp
  from t have "\<forall>s' vmName'.
             vBoxResponseCache s' ''mode'' = Some ([], clock ?s1 + VBoxManageCacheTimeout ?E)
             \<and> clock s' < clock ?s1 + VBoxManageCacheTimeout ?E
             \<longrightarrow> fst (GetVMProperty ?E vmName' ''mode'' s') = []
                 \<and> invocations (trace (snd (GetVMProperty ?E vmName' ''mode'' s')))
                     = invocations (trace s')"
    by (elim conjE)
  with entry fresh have "fst (GetVMProperty ?E ''exam'' ''mode'' ?s2) = []
                 \<and> invocations (trace (snd (GetVMProperty ?E ''exam'' ''mode'' ?s2)))
                     = invocations (trace ?s2)"
    by blast
  with t show ?thesis by blast
qed

subsection \<open>VM info that could not be read\<close>

text \<open>
  Claim C9. When the cache misses and the showvminfo invocation fails, \<open>getVMInfo\<close> stores
  the empty string under the key \<open>showvminfo\<close>, with the expiry \<open>VBoxManageCacheTimeout\<close>
  after the end of the invocation. In every later state that still holds this entry and
  whose clock is before the expiry, \<open>GetVMInfoByRegexp\<close> leaves the state as it is, so it
  invokes nothing, for every VM name and pattern, and returns the empty string for every
  pattern that \<open>regexp.MustCompile\<close> accepts.
\<close>

theorem getVMInfo_failure_cached:
  assumes miss: "cache_Get s ''showvminfo'' = None"
    and run: "RunCommandWithoutLogging env [''showvminfo'', ''--machinereadable'', vmName] s
                = ((output, Some e), s1)"
  shows "fst (getVMInfo env vmName s) = []
       \<and> vBoxResponseCache (snd (getVMInfo env vmName s))
           = (vBoxResponseCache s)(''showvminfo'' \<mapsto> ([], clock s1 + VBoxManageCacheTimeout env))
       \<and> clock (snd (getVMInfo env vmName s)) = clock s1
       \<and> (\<forall>s' vmName' vmRegexp.
             vBoxResponseCache s' ''showvminfo''
               = Some ([], clock s1 + VBoxManageCacheTimeout env)
             \<and> clock s' < clock s1 + VBoxManageCacheTimeout env
             \<longrightarrow> snd (GetVMInfoByRegexp env vmName' vmRegexp s') = s'
                 \<and> (regexp_MustCompile env vmRegexp \<noteq> None
                      \<longrightarrow> fst (GetVMInfoByRegexp env vmName' vmRegexp s') = Some []))"
proof -
  have c1: "vBoxResponseCache s1 = vBoxResponseCache s"
    using runCommand_effects [of env "[''showvminfo'', ''--machinereadable'', vmName]" False s] run
    by (simp add: RunCommandWithoutLogging_def)
  have first: "fst (getVMInfo env vmName s) = []"
    "vBoxResponseCache (snd (getVMInfo env vmName s))
           = (vBoxResponseCache s)(''showvminfo'' \<mapsto> ([], clock s1 + VBoxManageCacheTimeout env))"
    "clock (snd (getVMInfo env vmName s)) = clock s1"
    by (simp_all add: getVMInfo_def miss run cache_Set_def c1)
  have later: "snd (GetVMInfoByRegexp env vmName' vmRegexp s') = s'
                 \<and> (regexp_MustCompile env vmRegexp \<noteq> None
                      \<longrightarrow> fst (GetVMInfoByRegexp env vmName' vmRegexp s') = Some [])"
    if "vBoxResponseCache s' ''showvminfo'' = Some ([], clock s1 + VBoxManageCacheTimeout env)"
      and "clock s' < clock s1 + VBoxManageCacheTimeout env" for s' vmName' vmRegexp
  proof -
    have "cache_Get s' ''showvminfo'' = Some []"
      using that by (rule cache_hit)
    then have g: "getVMInfo env vmName' s' = ([], s')"
      by (simp add: getVMInfo_def)
    show ?thesis
      using slices_of_empty
      by (auto simp add: GetVMInfoByRegexp_def g Let_def split: option.splits)
  qed
  show ?thesis using first later by blast
qed

theorem getVMInfo_failure_cached_witness:
  "fst (getVMInfo (sample_env (answers (''error: access denied'',
                                     Some (ExternalError ''exit status 1''))) (False, None))
          ''exam'' idle_state) = []
   \<and> GetVMInfoByRegexp (sample_env (answers (''error: access denied'',
                                     Some (ExternalError ''exit status 1''))) (False, None))
        ''exam'' ''memory=([0-9]+)''
        (snd (getVMInfo (sample_env (answers (''error: access denied'',
                                     Some (ExternalError ''exit status 1''))) (False, None))
                ''exam'' idle_state))
     = (Some [],
        snd (getVMInfo (sample_env (answers (''error: access denied'',
                                     Some (ExternalError ''exit status 1''))) (False, None))
                ''exam'' idle_state))"
proof -
  let ?E = "sample_env (answers (''error: access denied'',
                                 Some (ExternalError ''exit status 1''))) (False, None)"
  let ?args = "[''showvminfo'', ''--machinereadable'', ''exam'']"
  let ?s1 = "snd (RunCommandWithoutLogging ?E ?args idle_state)"
  let ?s2 = "snd (getVMInfo ?E ''exam'' idle_state)"
  have "fst (RunCommandWithoutLogging ?E ?args idle_state)
        = (''error: access denied'', Some (ExternalError ''exit status 1''))"
    by (simp only: RunCommandWithoutLogging_def sample_runCommand_failed)
  then have run: "RunCommandWithoutLogging ?E ?args idle_state
        = ((''error: access denied'', Some (ExternalError ''exit status 1'')), ?s1)"
    by (metis prod.collapse)
  note t = getVMInfo_failure_cached [OF idle_cache run]
  have ttl: "VBoxManageCacheTimeout ?E = 30000"
    by (simp add: sample_env_def)
  have compiles: "regexp_MustCompile ?E ''memory=([0-9]+)'' \<noteq> None"
    by (simp add: sample_env_def)
  have entry: "vBoxResponseCache ?s2 ''showvminfo''
               = Some ([], clock ?s1 + VBoxManageCacheTimeout ?E)"
    using t by simp
  have fresh: "clock ?s2 < clock ?s1 + VBoxManageCacheTimeout ?E"
    using t ttl by simp
  from t have "\<forall>s' vmName' vmRegexp.
             vBoxResponseCache s' ''showvminfo''
               = Some ([], clock ?s1 + VBoxManageCacheTimeout ?E)
             \<and> clock s' < clock ?s1 + VBoxManageCacheTimeout ?E
             \<longrightarrow> snd (GetVMInfoByRegexp ?E vmName' vmRegexp s') = s'
                 \<and> (regexp_MustCompile ?E vmRegexp \<noteq> None
                      \<longrightarrow> fst (GetVMInfoByRegexp ?E vmName' vmRegexp s') = Some [])"
    by (elim conjE)
  with entry fresh compiles
  have "snd (GetVMInfoByRegexp ?E ''exam'' ''memory=([0-9]+)'' ?s2) = ?s2
        \<and> fst (GetVMInfoByRegexp ?E ''exam'' ''memory=([0-9]+)'' ?s2) = Some []"
    by blast
  then have "GetVMInfoByRegexp ?E ''exam'' ''memory=([0-9]+)'' ?s2 = (Some [], ?s2)"
    by (metis prod.collapse)
  with t show ?thesis by blast
qed

subsection \<open>When the state of the VM is cached\<close>

text \<open>
  Claim C10. \<open>getVMState\<close> either leaves the cache as it is, or the cache missed, the
  string that \<open>getVMStateFromOutput\<close> extracted from the output of showvminfo is not
  empty, and \<open>getVMState\<close> returns that string with a nil error and has stored it under
  \<open>vmstate\<close>; so the cache is unchanged whenever it returns an error or the empty string. On a miss where the
  output of showvminfo contains \<open>Could not find a registered machine named\<close>, \<open>getVMState\<close>
  and \<open>IsVMRunning\<close> invoke the command line, leave the cache unchanged, and the key
  \<open>vmstate\<close> still misses afterwards: the next query invokes the command line again.
\<close>

theorem getVMState_cache_frame:
  "(vBoxResponseCache (snd (getVMState env vmName s)) = vBoxResponseCache s
    \<or> (\<exists>vmState. vmState \<noteq> []
          \<and> cache_Get s ''vmstate'' = None
          \<and> vmState = getVMStateFromOutput
                (fst (fst (RunCommandWithoutLogging env
                             [''showvminfo'', ''--machinereadable'', vmName] s)))
          \<and> fst (getVMState env vmName s) = (vmState, None)
          \<and> vBoxResponseCache (snd (getVMState env vmName s))
              = (vBoxResponseCache s)
                  (''vmstate'' \<mapsto> (vmState, clock (snd (getVMState env vmName s))
                                              + VBoxRunningCacheTimeout env))))
   \<and> (snd (fst (getVMState env vmName s)) \<noteq> None \<or> fst (fst (getVMState env vmName s)) = []
        \<longrightarrow> vBoxResponseCache (snd (getVMState env vmName s)) = vBoxResponseCache s)
   \<and> (\<forall>rawVMInfo err.
         cache_Get s ''vmstate'' = None
         \<and> fst (RunCommandWithoutLogging env [''showvminfo'', ''--machinereadable'', vmName] s)
             = (rawVMInfo, err)
         \<and> (\<exists>pre post. rawVMInfo = pre @ ''Could not find a registered machine named'' @ post)
         \<longrightarrow> fst (getVMState env vmName s) = ([], None)
             \<and> vBoxResponseCache (snd (getVMState env vmName s)) = vBoxResponseCache s
             \<and> cache_Get (snd (getVMState env vmName s)) ''vmstate'' = None
             \<and> (\<exists>more. invocations (trace (snd (getVMState env vmName s)))
                   = invocations (trace s)
                     @ (getVBoxManagePath env # [''showvminfo'', ''--machinereadable'', vmName])
                       # more)
             \<and> fst (IsVMRunning env vmName s) = (False, None)
             \<and> vBoxResponseCache (snd (IsVMRunning env vmName s)) = vBoxResponseCache s
             \<and> cache_Get (snd (IsVMRunning env vmName s)) ''vmstate'' = None
             \<and> vBoxManageStarted (snd (IsVMRunning env vmName s)) = 0
             \<and> (\<exists>more. invocations (trace (snd (IsVMRunning env vmName s)))
                   = invocations (trace s)
                     @ (getVBoxManagePath env # [''showvminfo'', ''--machinereadable'', vmName])
                       # more))"
proof (intro conjI allI impI)
  show w: "vBoxResponseCache (snd (getVMState env vmName s)) = vBoxResponseCache s
    \<or> (\<exists>vmState. vmState \<noteq> []
          \<and> cache_Get s ''vmstate'' = None
          \<and> vmState = getVMStateFromOutput
                (fst (fst (RunCommandWithoutLogging env
                             [''showvminfo'', ''--machinereadable'', vmName] s)))
          \<and> fst (getVMState env vmName s) = (vmState, None)
          \<and> vBoxResponseCache (snd (getVMState env vmName s))
              = (vBoxResponseCache s)
                  (''vmstate'' \<mapsto> (vmState, clock (snd (getVMState env vmName s))
                                              + VBoxRunningCacheTimeout env)))"
    by (rule getVMState_writes)
  {
    assume "snd (fst (getVMState env vmName s)) \<noteq> None \<or> fst (fst (getVMState env vmName s)) = []"
    with w show "vBoxResponseCache (snd (getVMState env vmName s)) = vBoxResponseCache s"
      by auto
  }
  fix rawVMInfo err
  assume h: "cache_Get s ''vmstate'' = None
         \<and> fst (RunCommandWithoutLogging env [''showvminfo'', ''--machinereadable'', vmName] s)
             = (rawVMInfo, err)
         \<and> (\<exists>pre post. rawVMInfo = pre @ ''Could not find a registered machine named'' @ post)"
  then have miss: "cache_Get s ''vmstate'' = None"
    and run: "fst (RunCommandWithoutLogging env [''showvminfo'', ''--machinereadable'', vmName] s)
             = (rawVMInfo, err)"
    and absent: "strings_Contains rawVMInfo vBoxManageOutputNoVMInstalled"
    by (simp_all only: strings_Contains_iff vBoxManageOutputNoVMInstalled_def)
  note n = getVMState_not_installed [OF miss run absent]
  let ?s1 = "snd (getVMState env vmName s)"
  show g1: "fst (getVMState env vmName s) = ([], None)" by (rule n(1))
  show g2: "vBoxResponseCache ?s1 = vBoxResponseCache s" by (rule n(2))
  show g3: "cache_Get ?s1 ''vmstate'' = None"
    using miss n(2) n(3) by (rule cache_miss_persists)
  show g4: "\<exists>more. invocations (trace ?s1)
                   = invocations (trace s)
                     @ (getVBoxManagePath env # [''showvminfo'', ''--machinereadable'', vmName])
                       # more"
    by (rule n(4))
  have r: "IsVMRunning env vmName s
           = ((False, None),
              log_Debug (''vboxmanage.IsVMRunning() got following state string: '' @ quoted []) ?s1)"
    using g1 by (cases "getVMState env vmName s") (simp add: IsVMRunning_def Let_def)
  show "fst (IsVMRunning env vmName s) = (False, None)"
    by (simp add: r)
  show "vBoxResponseCache (snd (IsVMRunning env vmName s)) = vBoxResponseCache s"
    by (simp add: r g2)
  show "cache_Get (snd (IsVMRunning env vmName s)) ''vmstate'' = None"
    using g3 by (rule cache_miss_persists) (simp_all add: r)
  show "vBoxManageStarted (snd (IsVMRunning env vmName s)) = 0"
    by (simp add: r n(5))
  show "\<exists>more. invocations (trace (snd (IsVMRunning env vmName s)))
                   = invocations (trace s)
                     @ (getVBoxManagePath env # [''showvminfo'', ''--machinereadable'', vmName])
                       # more"
    using g4 by (simp add: r trace_log_Debug invocations_append)
qed

theorem getVMState_cache_frame_witness:
  "fst (IsVMRunning (sample_env (answers (''error: Could not find a registered machine named exam'',
                                       Some (ExternalError ''exit status 1''))) (False, None))
          ''exam'' idle_state) = (False, None)
   \<and> fst (IsVMRunning (sample_env (answers (''error: Could not find a registered machine named exam'',
                                       Some (ExternalError ''exit status 1''))) (False, None))
          ''exam''
          (snd (IsVMRunning (sample_env (answers (''error: Could not find a registered machine named exam'',
                                       Some (ExternalError ''exit status 1''))) (False, None))
                  ''exam'' idle_state))) = (False, None)
   \<and> (\<exists>more. invocations (trace (snd (IsVMRunning
          (sample_env (answers (''error: Could not find a registered machine named exam'',
                                       Some (ExternalError ''exit status 1''))) (False, None))
          ''exam''
          (snd (IsVMRunning (sample_env (answers (''error: Could not find a registered machine named exam'',
                                       Some (ExternalError ''exit status 1''))) (False, None))
                  ''exam'' idle_state)))))
        = invocations (trace (snd (IsVMRunning
            (sample_env (answers (''error: Could not find a registered machine named exam'',
                                       Some (ExternalError ''exit status 1''))) (False, None))
                  ''exam'' idle_state)))
          @ [''VBoxManage'', ''showvminfo'', ''--machinereadable'', ''exam''] # more)"
proof -
  let ?E = "sample_env (answers (''error: Could not find a registered machine named exam'',
                                 Some (ExternalError ''exit status 1''))) (False, None)"
  let ?args = "[''showvminfo'', ''--machinereadable'', ''exam'']"
  let ?s2 = "snd (IsVMRunning ?E ''exam'' idle_state)"
  have p: "getVBoxManagePath ?E = ''VBoxManage''"
    by (simp add: sample_env_def)
  have r1: "fst (RunCommandWithoutLogging ?E ?args idle_state)
      = (''error: Could not find a registered machine named exam'',
         Some (ExternalError ''exit status 1''))"
    by (simp only: RunCommandWithoutLogging_def sample_runCommand_failed)
  note a1 = getVMState_cache_frame [of ?E "''exam''" idle_state, THEN conjunct2, THEN conjunct2,
      rule_format, OF conjI [OF idle_cache conjI [OF r1 contains_not_registered]]]
  have miss2: "cache_Get ?s2 ''vmstate'' = None" and idle2: "vBoxManageStarted ?s2 = 0"
    using a1 by blast+
  have r2: "fst (RunCommandWithoutLogging ?E ?args ?s2)
      = (''error: Could not find a registered machine named exam'',
         Some (ExternalError ''exit status 1''))"
    unfolding RunCommandWithoutLogging_def
    using idle2 by (rule sample_runCommand_failed_idle)
  note a2 = getVMState_cache_frame [of ?E "''exam''" ?s2, THEN conjunct2, THEN conjunct2,
      rule_format, OF conjI [OF miss2 conjI [OF r2 contains_not_registered]]]
  have b1: "fst (IsVMRunning ?E ''exam'' idle_state) = (False, None)"
    using a1 by blast
  have b2: "fst (IsVMRunning ?E ''exam'' ?s2) = (False, None)"
    using a2 by blast
  have b3: "\<exists>more. invocations (trace (snd (IsVMRunning ?E ''exam'' ?s2)))
        = invocations (trace ?s2) @ (getVBoxManagePath ?E # ?args) # more"
    using a2 by blast
  show ?thesis
    using b1 b2 b3 unfolding p by blast
qed

end
